theory Spec2Isabelle
  imports Complex_Main "HOL-Library.Log_Nat" "HOL-Library.Multiset"
begin

section \<open>JavaScript numbers\<close>

text \<open>
  The tracker component computes with JavaScript Number values: IEEE-754 binary64
  numbers together with \<open>NaN\<close>, \<open>Infinity\<close> and \<open>-Infinity\<close>. A finite
  double is modelled by the rational number it denotes; every arithmetic result is
  rounded back to a double by \<open>fl\<close> (round to nearest, ties to even, overflow to
  an infinity, gradual underflow). The two zeros are identified: the component never
  divides by a value whose sign of zero could be observed.
\<close>

datatype jsnum = NaN | NegInf | Fin rat | PosInf

definition isNaN :: "jsnum \<Rightarrow> bool" where
  "isNaN v = (v = NaN)"

text \<open>The comparison \<open>a < b\<close>: false as soon as one operand is \<open>NaN\<close>.\<close>

fun jlt :: "jsnum \<Rightarrow> jsnum \<Rightarrow> bool" where
  "jlt (Fin a) (Fin b) = (a < b)"
| "jlt (Fin a) PosInf = True"
| "jlt NegInf (Fin b) = True"
| "jlt NegInf PosInf = True"
| "jlt _ _ = False"

text \<open>The comparison \<open>a <= b\<close>: \<open>b < a\<close> is false and neither operand is \<open>NaN\<close>.\<close>

definition jle :: "jsnum \<Rightarrow> jsnum \<Rightarrow> bool" where
  "jle a b = (a \<noteq> NaN \<and> b \<noteq> NaN \<and> \<not> jlt b a)"

definition jgt :: "jsnum \<Rightarrow> jsnum \<Rightarrow> bool" where
  "jgt a b = jlt b a"

definition jge :: "jsnum \<Rightarrow> jsnum \<Rightarrow> bool" where
  "jge a b = jle b a"

subsection \<open>Rounding to binary64\<close>

text \<open>\<open>binade a\<close> is the integer \<open>e\<close> with \<open>2^e \<le> a < 2^(e+1)\<close>, for \<open>a > 0\<close>.\<close>

definition binade :: "rat \<Rightarrow> int" where
  "binade a = (if 1 \<le> a then bitlen \<lfloor>a\<rfloor> - 1 else - bitlen (\<lceil>1 / a\<rceil> - 1))"

definition pow2 :: "int \<Rightarrow> rat" where
  "pow2 k = (if 0 \<le> k then 2 ^ nat k else 1 / 2 ^ nat (- k))"

definition roundTiesToEven :: "rat \<Rightarrow> int" where
  "roundTiesToEven m =
     (let f = \<lfloor>m\<rfloor>; d = m - of_int f
      in if d < 1 / 2 then f else if 1 / 2 < d then f + 1
         else if even f then f else f + 1)"

text \<open>
  The double nearest to the rational \<open>q\<close>: 53 significant bits, the exponent of the
  last place never below \<open>-1074\<close>, and an infinity once the rounded magnitude
  reaches \<open>2^1024\<close>.
\<close>

definition fl :: "rat \<Rightarrow> jsnum" where
  "fl q =
     (if q = 0 then Fin 0
      else let a = \<bar>q\<bar>;
               e = max (binade a) (- 1022);
               ulp = pow2 (e - 52);
               r = of_int (roundTiesToEven (a / ulp)) * ulp
           in if 2 ^ 1024 \<le> r then (if q < 0 then NegInf else PosInf)
              else Fin (if q < 0 then - r else r))"

subsection \<open>Arithmetic\<close>

text \<open>The sum \<open>a + b\<close> of two Numbers.\<close>

fun jadd :: "jsnum \<Rightarrow> jsnum \<Rightarrow> jsnum" where
  "jadd NaN _ = NaN"
| "jadd _ NaN = NaN"
| "jadd PosInf NegInf = NaN"
| "jadd NegInf PosInf = NaN"
| "jadd PosInf _ = PosInf"
| "jadd _ PosInf = PosInf"
| "jadd NegInf _ = NegInf"
| "jadd _ NegInf = NegInf"
| "jadd (Fin a) (Fin b) = fl (a + b)"

text \<open>
  The quotient \<open>a / b\<close>. A zero divisor is the positive zero: the only divisor of
  the component is the length of an array.
\<close>

fun jdiv :: "jsnum \<Rightarrow> jsnum \<Rightarrow> jsnum" where
  "jdiv NaN _ = NaN"
| "jdiv _ NaN = NaN"
| "jdiv (Fin a) (Fin b) =
     (if b = 0 then (if a = 0 then NaN else if 0 < a then PosInf else NegInf)
      else fl (a / b))"
| "jdiv (Fin a) _ = Fin 0"
| "jdiv PosInf (Fin b) = (if 0 \<le> b then PosInf else NegInf)"
| "jdiv NegInf (Fin b) = (if 0 \<le> b then NegInf else PosInf)"
| "jdiv _ _ = NaN"

text \<open>
  \<open>Math.min(...values)\<close> and \<open>Math.max(...values)\<close>: \<open>Infinity\<close> and
  \<open>-Infinity\<close> on no argument, \<open>NaN\<close> as soon as one argument is \<open>NaN\<close>.
\<close>

definition jmin :: "jsnum \<Rightarrow> jsnum \<Rightarrow> jsnum" where
  "jmin a b = (if a = NaN \<or> b = NaN then NaN else if jlt b a then b else a)"

definition jmax :: "jsnum \<Rightarrow> jsnum \<Rightarrow> jsnum" where
  "jmax a b = (if a = NaN \<or> b = NaN then NaN else if jlt a b then b else a)"

definition Math_min :: "jsnum list \<Rightarrow> jsnum" where
  "Math_min vs = foldl jmin PosInf vs"

definition Math_max :: "jsnum list \<Rightarrow> jsnum" where
  "Math_max vs = foldl jmax NegInf vs"

text \<open>
  \<open>x.toFixed(f)\<close> returns a string; the model returns the number that string
  denotes. A value that is not finite, or of magnitude at least \<open>10^21\<close>, is printed
  as it is; otherwise the magnitude is replaced by \<open>n / 10^f\<close> for the integer \<open>n\<close>
  nearest to \<open>x * 10^f\<close>, the larger one on a tie, and the sign is kept.
\<close>

definition toFixed :: "nat \<Rightarrow> jsnum \<Rightarrow> jsnum" where
  "toFixed f x =
     (case x of
        Fin q \<Rightarrow>
          (let a = \<bar>q\<bar>
           in if 10 ^ 21 \<le> a then Fin q
              else let n = \<lfloor>a * 10 ^ f + 1 / 2\<rfloor>
                   in Fin ((if q < 0 then - 1 else 1) * of_int n / 10 ^ f))
      | _ \<Rightarrow> x)"

subsection \<open>\<open>parseFloat\<close>\<close>

text \<open>
  \<open>parseFloat(string)\<close> skips leading white space, reads the longest prefix that
  is a decimal literal (an optional sign, then \<open>Infinity\<close> or digits with an
  optional fraction and an optional exponent) and returns its value rounded to a
  double; it returns \<open>NaN\<close> when no prefix is a literal. Whatever follows the
  literal is ignored. A string is the list of the bytes of its UTF-8 encoding. The
  white space skipped is the language's: the six ASCII characters (tab, line feed,
  vertical tab, form feed, carriage return, space) and, in two or three bytes each, the
  no-break space U+00A0, U+1680, U+2000 to U+200A, the line and paragraph separators
  U+2028 and U+2029, U+202F, U+205F, U+3000 and the byte order mark U+FEFF.
\<close>

definition ascii_space :: "char \<Rightarrow> bool" where
  "ascii_space c = (of_char c \<in> {9, 10, 11, 12, 13, 32 :: nat})"

definition utf8_space :: "nat list \<Rightarrow> bool" where
  "utf8_space bs =
     (bs = [194, 160] \<or> bs = [225, 154, 128]
      \<or> (take 2 bs = [226, 128] \<and> length bs = 3
          \<and> (128 \<le> bs ! 2 \<and> bs ! 2 \<le> 138 \<or> bs ! 2 = 168 \<or> bs ! 2 = 169 \<or> bs ! 2 = 175))
      \<or> bs = [226, 129, 159] \<or> bs = [227, 128, 128] \<or> bs = [239, 187, 191])"

fun skip_space :: "string \<Rightarrow> string" where
  "skip_space [] = []"
| "skip_space (c # s) =
     (if ascii_space c then skip_space s
      else if utf8_space (map of_char (c # take 1 s)) then skip_space (drop 1 s)
      else if utf8_space (map of_char (c # take 2 s)) then skip_space (drop 2 s)
      else c # s)"

definition is_digit :: "char \<Rightarrow> bool" where
  "is_digit c = (48 \<le> (of_char c :: nat) \<and> (of_char c :: nat) \<le> 57)"

definition digit_val :: "char \<Rightarrow> nat" where
  "digit_val c = of_char c - 48"

definition digits_val :: "string \<Rightarrow> nat" where
  "digits_val ds = foldl (\<lambda>n c. 10 * n + digit_val c) 0 ds"

definition pow10 :: "int \<Rightarrow> rat" where
  "pow10 k = (if 0 \<le> k then 10 ^ nat k else 1 / 10 ^ nat (- k))"

text \<open>The optional sign in front of a literal or of an exponent: negative or not, and the rest.\<close>

definition take_sign :: "string \<Rightarrow> bool \<times> string" where
  "take_sign s =
     (case s of
        [] \<Rightarrow> (False, s)
      | c # r \<Rightarrow> if c = CHR ''-'' then (True, r) else if c = CHR ''+'' then (False, r)
                 else (False, s))"

text \<open>The value of the exponent part at the head of \<open>s\<close>, \<open>0\<close> when there is none.\<close>

definition exponent_part :: "string \<Rightarrow> int" where
  "exponent_part s =
     (case s of
        [] \<Rightarrow> 0
      | c # r \<Rightarrow>
          if c = CHR ''e'' \<or> c = CHR ''E'' then
            (let (neg, d) = take_sign r; ds = takeWhile is_digit d
             in if ds = [] then 0
                else if neg then - int (digits_val ds) else int (digits_val ds))
          else 0)"

definition unsigned_literal :: "string \<Rightarrow> jsnum option" where
  "unsigned_literal u =
     (if take 8 u = ''Infinity'' then Some PosInf
      else let ip = takeWhile is_digit u;
               r1 = dropWhile is_digit u;
               (fp, r2) = (case r1 of
                             [] \<Rightarrow> ([], r1)
                           | c # r \<Rightarrow> if c = CHR ''.''
                                      then (takeWhile is_digit r, dropWhile is_digit r)
                                      else ([], r1))
           in if ip = [] \<and> fp = [] then None
              else Some (fl (of_nat (digits_val (ip @ fp))
                             * pow10 (exponent_part r2 - int (length fp)))))"

definition jneg :: "jsnum \<Rightarrow> jsnum" where
  "jneg v = (case v of NaN \<Rightarrow> NaN | NegInf \<Rightarrow> PosInf | PosInf \<Rightarrow> NegInf | Fin q \<Rightarrow> Fin (- q))"

definition parseFloat :: "string \<Rightarrow> jsnum" where
  "parseFloat s =
     (let (neg, u) = take_sign (skip_space s)
      in case unsigned_literal u of
           None \<Rightarrow> NaN
         | Some v \<Rightarrow> if neg then jneg v else v)"

section \<open>The tracker component\<close>

subsection \<open>Statistics of the listed records\<close>

text \<open>
  A listed record is a document of the store with its identifier: the reading as the
  text that was typed, the date as \<open>DD/MM/YYYY\<close>, the time as \<open>HH:MM\<close> and the
  instant of the reading in milliseconds since the epoch.
\<close>

record registro =
  doc_id :: string
  glicemia :: string
  data :: string
  hora :: string
  timestamp :: int

text \<open>
  The status strings of the summary: \<open>'info'\<close>, \<open>'normal'\<close>,
  \<open>'hipoglicemia'\<close>, \<open>'hiperglicemia'\<close>, \<open>'otimo'\<close> (written with an
  acute accent in the source) and \<open>'moderado'\<close>.
\<close>

datatype status = Info | Normal | Hipoglicemia | Hiperglicemia | Otimo | Moderado

text \<open>
  The summary object. \<open>avg\<close>, \<open>minv\<close> and \<open>maxv\<close> are the numbers that the
  fields \<open>avg\<close>, \<open>min\<close> and \<open>max\<close> denote (the number \<open>0\<close> of the empty
  case, the \<open>toFixed\<close> strings otherwise); the empty case has no \<open>color\<close>.
\<close>

record summary =
  avg :: jsnum
  countv :: nat
  minv :: jsnum
  maxv :: jsnum
  status :: status
  color :: "string option"

text \<open>The status and colour chosen from the average, in the order of the source.\<close>

definition avg_status :: "jsnum \<Rightarrow> status \<times> string" where
  "avg_status a =
     (if jlt a (Fin 70) then (Hipoglicemia, ''bg-blue-500'')
      else if jgt a (Fin 180) then (Hiperglicemia, ''bg-red-500'')
      else if jge a (Fin 70) \<and> jle a (Fin 130) then (Otimo, ''bg-lime-600'')
      else if jgt a (Fin 130) \<and> jle a (Fin 180) then (Moderado, ''bg-yellow-500'')
      else (Normal, ''bg-green-500''))"

definition parsed_values :: "registro list \<Rightarrow> jsnum list" where
  "parsed_values registros =
     filter (\<lambda>v. \<not> isNaN v) (map (\<lambda>r. parseFloat (glicemia r)) registros)"

definition stats :: "registro list \<Rightarrow> summary" where
  "stats registros =
     (if length registros = 0
      then \<lparr>avg = Fin 0, countv = 0, minv = Fin 0, maxv = Fin 0, status = Info, color = None\<rparr>
      else let vals = parsed_values registros;
               total = foldl jadd (Fin 0) vals;
               mean = jdiv total (Fin (of_nat (length vals)));
               lo = Math_min vals;
               hi = Math_max vals;
               n = length vals;
               (st, col) = avg_status mean
           in \<lparr>avg = toFixed 1 mean, countv = n, minv = toFixed 0 lo, maxv = toFixed 0 hi,
               status = st, color = Some col\<rparr>)"

text \<open>The style of one row of the table, chosen from the reading of that row.\<close>

definition style_of :: "jsnum \<Rightarrow> string" where
  "style_of val =
     (if jlt val (Fin 70) then ''text-blue-600 font-bold bg-blue-50 border-blue-200''
      else if jle val (Fin 130) then ''text-green-600 font-bold bg-green-50 border-green-200''
      else if jle val (Fin 180) then ''text-yellow-700 font-bold bg-yellow-50 border-yellow-200''
      else ''text-red-600 font-bold bg-red-50 border-red-200'')"

definition getGlicemiaStyle :: "string \<Rightarrow> string" where
  "getGlicemiaStyle v = style_of (parseFloat v)"

subsection \<open>Dates\<close>

text \<open>
  \<open>new Date(string)\<close>. The result is the time value of the date
  (\<open>getTime()\<close>, milliseconds since the epoch), \<open>None\<close> for an invalid date,
  whose time value is \<open>NaN\<close>. A string in the date time string format of the
  language definition is read as that definition says. The format is a date
  \<open>YYYY\<close>, \<open>YYYY-MM\<close> or \<open>YYYY-MM-DD\<close>, the year also with a sign and six
  digits, alone or followed by \<open>T\<close>, a time \<open>HH:mm\<close>, \<open>HH:mm:ss\<close> or
  \<open>HH:mm:ss.sss\<close> and an optional offset \<open>Z\<close> or \<open>+HH:mm\<close>, \<open>-HH:mm\<close>.
  A date alone is in UTC; a date with a time and no offset is in local time. The day
  of the month ranges over 01 to 31 whatever the month, and a day past the end of its
  month falls into the next month, as in V8.

  Two things belong to the engine and its surroundings and are parameters here. The
  time zone is \<open>tza\<close>: the offset of local time from UTC, in milliseconds, that
  is in force at a local time value, so that it may differ from one instant to another.
  What becomes of a string outside the format is \<open>legacy\<close>: the language definition
  leaves such a string to the implementation.
\<close>

definition DayFromYear :: "int \<Rightarrow> int" where
  "DayFromYear y =
     365 * (y - 1970) + (y - 1969) div 4 - (y - 1901) div 100 + (y - 1601) div 400"

definition InLeapYear :: "int \<Rightarrow> bool" where
  "InLeapYear y = (y mod 4 = 0 \<and> (y mod 100 \<noteq> 0 \<or> y mod 400 = 0))"

text \<open>The number of days of the year before the first day of month \<open>m\<close> (1 to 12).\<close>

definition month_start :: "int \<Rightarrow> nat \<Rightarrow> int" where
  "month_start y m =
     [0, 31, 59, 90, 120, 151, 181, 212, 243, 273, 304, 334] ! (m - 1)
     + (if InLeapYear y \<and> 3 \<le> m then 1 else 0)"

definition MakeDay :: "int \<Rightarrow> nat \<Rightarrow> nat \<Rightarrow> int" where
  "MakeDay y m d = DayFromYear y + month_start y m + int d - 1"

definition MakeTime :: "nat \<Rightarrow> nat \<Rightarrow> nat \<Rightarrow> nat \<Rightarrow> int" where
  "MakeTime h mi s ms = int h * 3600000 + int mi * 60000 + int s * 1000 + int ms"

definition MakeDate :: "int \<Rightarrow> int \<Rightarrow> int" where
  "MakeDate day time = day * 86400000 + time"

definition TimeClip :: "int \<Rightarrow> int option" where
  "TimeClip t = (if \<bar>t\<bar> \<le> 8640000000000000 then Some t else None)"

text \<open>The instant of the local time value \<open>t\<close>.\<close>

definition UTC :: "(int \<Rightarrow> int) \<Rightarrow> int \<Rightarrow> int" where
  "UTC tza t = t - tza t"

text \<open>The value of a field of exactly \<open>n\<close> digits.\<close>

definition digits_n :: "nat \<Rightarrow> string \<Rightarrow> nat option" where
  "digits_n n s = (if length s = n \<and> list_all is_digit s then Some (digits_val s) else None)"

text \<open>
  The year at the head of a date, four digits or a sign and six digits (but not
  \<open>-000000\<close>), with what follows it.
\<close>

definition iso_year :: "string \<Rightarrow> (int \<times> string) option" where
  "iso_year s =
     (case s of
        [] \<Rightarrow> None
      | c # r \<Rightarrow>
          if c = CHR ''+'' then map_option (\<lambda>n. (int n, drop 6 r)) (digits_n 6 (take 6 r))
          else if c = CHR ''-'' then
            (case digits_n 6 (take 6 r) of
               None \<Rightarrow> None
             | Some n \<Rightarrow> if n = 0 then None else Some (- int n, drop 6 r))
          else map_option (\<lambda>n. (int n, drop 4 s)) (digits_n 4 (take 4 s)))"

text \<open>What follows the year: nothing, \<open>-MM\<close> or \<open>-MM-DD\<close>; month and day default to 1.\<close>

fun month_and_day :: "string \<Rightarrow> (nat \<times> nat) option" where
  "month_and_day [] = Some (1, 1)"
| "month_and_day [c, m1, m2] =
     (if c = CHR ''-'' then map_option (\<lambda>m. (m, 1)) (digits_n 2 [m1, m2]) else None)"
| "month_and_day [c, m1, m2, c', d1, d2] =
     (if c = CHR ''-'' \<and> c' = CHR ''-'' then
        (case (digits_n 2 [m1, m2], digits_n 2 [d1, d2]) of
           (Some m, Some d) \<Rightarrow> Some (m, d)
         | _ \<Rightarrow> None)
      else None)"
| "month_and_day _ = None"

text \<open>The fields of a date of the format: year, month 01 to 12, day 01 to 31.\<close>

definition iso_date :: "string \<Rightarrow> (int \<times> nat \<times> nat) option" where
  "iso_date s =
     (case iso_year s of
        None \<Rightarrow> None
      | Some (y, r) \<Rightarrow>
          (case month_and_day r of
             None \<Rightarrow> None
           | Some (m, d) \<Rightarrow>
               if 1 \<le> m \<and> m \<le> 12 \<and> 1 \<le> d \<and> d \<le> 31 then Some (y, m, d) else None))"

text \<open>
  The time after the \<open>T\<close>: hour and minute, then optional seconds, then optional
  milliseconds, then the optional offset. The hour ranges over 00 to 24, minute and
  second over 00 to 59, and the hour 24 stands only for the end of the day.
\<close>

datatype zone = LocalTime | UTCoffset int

fun millis_part :: "string \<Rightarrow> (nat \<times> string) option" where
  "millis_part (c # f1 # f2 # f3 # r) =
     (if c = CHR ''.'' then map_option (\<lambda>ms. (ms, r)) (digits_n 3 [f1, f2, f3])
      else Some (0, c # f1 # f2 # f3 # r))"
| "millis_part r = Some (0, r)"

fun seconds_part :: "string \<Rightarrow> ((nat \<times> nat) \<times> string) option" where
  "seconds_part (c # s1 # s2 # r) =
     (if c = CHR '':'' then
        (case (digits_n 2 [s1, s2], millis_part r) of
           (Some sec, Some (ms, r')) \<Rightarrow> Some ((sec, ms), r')
         | _ \<Rightarrow> None)
      else Some ((0, 0), c # s1 # s2 # r))"
| "seconds_part r = Some ((0, 0), r)"

fun zone_part :: "string \<Rightarrow> zone option" where
  "zone_part [] = Some LocalTime"
| "zone_part [z] = (if z = CHR ''Z'' then Some (UTCoffset 0) else None)"
| "zone_part [sg, h1, h2, c, m1, m2] =
     (if (sg = CHR ''+'' \<or> sg = CHR ''-'') \<and> c = CHR '':'' then
        (case (digits_n 2 [h1, h2], digits_n 2 [m1, m2]) of
           (Some h, Some mi) \<Rightarrow>
             if h \<le> 23 \<and> mi \<le> 59
             then Some (UTCoffset ((if sg = CHR ''-'' then - 1 else 1)
                                    * (int h * 3600000 + int mi * 60000)))
             else None
         | _ \<Rightarrow> None)
      else None)"
| "zone_part _ = None"

fun iso_time :: "string \<Rightarrow> ((nat \<times> nat \<times> nat \<times> nat) \<times> zone) option" where
  "iso_time (h1 # h2 # c # m1 # m2 # r) =
     (if c = CHR '':'' then
        (case (digits_n 2 [h1, h2], digits_n 2 [m1, m2], seconds_part r) of
           (Some h, Some mi, Some ((sec, ms), r')) \<Rightarrow>
             (case zone_part r' of
                None \<Rightarrow> None
              | Some z \<Rightarrow>
                  if h \<le> 24 \<and> mi \<le> 59 \<and> sec \<le> 59 \<and> (h = 24 \<longrightarrow> mi = 0 \<and> sec = 0 \<and> ms = 0)
                  then Some ((h, mi, sec, ms), z) else None)
         | _ \<Rightarrow> None)
      else None)"
| "iso_time _ = None"

definition newDate :: "(int \<Rightarrow> int) \<Rightarrow> (string \<Rightarrow> int option) \<Rightarrow> string \<Rightarrow> int option" where
  "newDate tza legacy s =
     (let d = takeWhile (\<lambda>c. c \<noteq> CHR ''T'') s;
          r = dropWhile (\<lambda>c. c \<noteq> CHR ''T'') s
      in case iso_date d of
           None \<Rightarrow> legacy s
         | Some (y, m, dd) \<Rightarrow>
             if r = [] then TimeClip (MakeDate (MakeDay y m dd) 0)
             else (case iso_time (tl r) of
                     None \<Rightarrow> legacy s
                   | Some ((h, mi, sec, ms), z) \<Rightarrow>
                       (let t = MakeDate (MakeDay y m dd) (MakeTime h mi sec ms)
                        in TimeClip (case z of LocalTime \<Rightarrow> UTC tza t
                                     | UTCoffset off \<Rightarrow> t - off))))"

subsection \<open>The document store\<close>

text \<open>The store holds, for every collection path, the documents of that collection.\<close>

type_synonym store = "string \<Rightarrow> registro list"

definition GLICEMIA_COLLECTION :: "string \<Rightarrow> string \<Rightarrow> string" where
  "GLICEMIA_COLLECTION appId userId =
     ''artifacts/'' @ appId @ ''/users/'' @ userId @ ''/glicemia_records''"

text \<open>
  What the store library throws: the refusal of a timestamp whose seconds are out of
  range, with the seconds, and the rejection of a write, with its message.
\<close>

datatype failure = SecondsOutOfRange int | Rejected string

text \<open>
  \<open>Timestamp.fromDate\<close> of the store library, which is not part of the repository
  and which the design document does not describe; this is the behaviour of the
  library. It makes the timestamp of the time value of the date
  (\<open>Timestamp.fromMillis\<close>): the seconds are \<open>floor(ms / 1000)\<close>, and the
  timestamp is refused with \<open>Timestamp seconds out of range\<close> when the seconds are
  before 0001-01-01T00:00:00Z or not before 10000-01-01T00:00:00Z. The timestamp of an
  invalid date is not refused, since no comparison with \<open>NaN\<close> holds; it is
  \<open>None\<close> here. A timestamp that is made stands for the same instant as the date.
\<close>

definition in_timestamp_range :: "int \<Rightarrow> bool" where
  "in_timestamp_range ms = (- 62135596800 \<le> ms div 1000 \<and> ms div 1000 < 253402300800)"

definition Timestamp_fromMillis :: "int \<Rightarrow> failure + int" where
  "Timestamp_fromMillis ms =
     (if in_timestamp_range ms then Inr ms else Inl (SecondsOutOfRange (ms div 1000)))"


text \<open>
  Modelled from the spec: the store's \<open>create-document(scope, fields) -> id\<close>
  (\<open>addDoc\<close> of the store library, which is not part of the repository). The
  document is added to the collection under the identifier \<open>new_id\<close> that the store
  assigns, or the call is rejected with a message and the store is left as it was;
  \<open>fault\<close> is the rejection, if any.
\<close>

definition addDoc :: "string option \<Rightarrow> string \<Rightarrow> store \<Rightarrow> string \<Rightarrow> registro \<Rightarrow> failure + store" where
  "addDoc fault new_id db path doc =
     (case fault of
        Some msg \<Rightarrow> Inl (Rejected msg)
      | None \<Rightarrow> Inr (db (path := db path @ [doc\<lparr>doc_id := new_id\<rparr>])))"

datatype direction = Asc | Desc


definition order_by :: "direction \<Rightarrow> registro list \<Rightarrow> registro list" where
  "order_by dir rs = (case dir of Asc \<Rightarrow> sort_key timestamp rs | Desc \<Rightarrow> rev (sort_key timestamp rs))"


subsection \<open>Saving a reading\<close>

text \<open>
  The messages of the form: the two validation messages, the message of a failed save
  with what was thrown, and the message of success with the value saved.
\<close>

datatype save_message = InvalidValue | InvalidDateTime | SaveError failure | SaveSuccess string

text \<open>
  The state of the form: the three inputs \<open>glicemia\<close>, \<open>data\<close> and \<open>hora\<close>,
  the busy flag and the message shown.
\<close>

record form =
  f_glicemia :: string
  f_data :: string
  f_hora :: string
  loadingSave :: bool
  saveMessage :: "save_message option"

text \<open>\<open>s.split(c)\<close> on one separator character and \<open>parts.join(sep)\<close>.\<close>

fun split_on :: "char \<Rightarrow> string \<Rightarrow> string list" where
  "split_on c [] = [[]]"
| "split_on c (x # xs) =
     (if x = c then [] # split_on c xs
      else (case split_on c xs of [] \<Rightarrow> [[x]] | p # ps \<Rightarrow> (x # p) # ps))"

fun join_with :: "string \<Rightarrow> string list \<Rightarrow> string" where
  "join_with sep [] = []"
| "join_with sep [p] = p"
| "join_with sep (p # ps) = p @ sep @ join_with sep ps"

text \<open>
  \<open>handleSave\<close>: the value is validated, then the date; only then are the fields
  of the document made, the timestamp among them, and handed to the store. \<open>tza\<close>
  and \<open>legacy\<close> are the time zone and the engine, \<open>fault\<close> and \<open>new_id\<close> are
  the store's answer to the write. The date is a valid one where its timestamp is made,
  so that \<open>Timestamp.fromDate\<close> is there the timestamp of its time value. Whatever
  is thrown inside the \<open>try\<close> block is caught and shown: the refusal of the
  timestamp, which is thrown before the store is called, and the rejection of the
  write. The timer that clears the message four seconds later is left out.
\<close>

definition handleSave ::
  "(int \<Rightarrow> int) \<Rightarrow> (string \<Rightarrow> int option) \<Rightarrow> string \<Rightarrow> string \<Rightarrow> string option \<Rightarrow> string
     \<Rightarrow> form \<times> store \<Rightarrow> form \<times> store" where
  "handleSave tza legacy appId userId fault new_id st =
     (let (fm, db) = st;
          glicemiaValue = parseFloat (f_glicemia fm)
      in if isNaN glicemiaValue \<or> jle glicemiaValue (Fin 0)
         then (fm\<lparr>saveMessage := Some InvalidValue, loadingSave := False\<rparr>, db)
         else (case newDate tza legacy (f_data fm @ ''T'' @ f_hora fm @ '':00'') of
                 None \<Rightarrow> (fm\<lparr>saveMessage := Some InvalidDateTime, loadingSave := False\<rparr>, db)
               | Some recordDate \<Rightarrow>
                   (case Timestamp_fromMillis recordDate of
                      Inl thrown \<Rightarrow>
                        (fm\<lparr>saveMessage := Some (SaveError thrown), loadingSave := False\<rparr>, db)
                    | Inr ts \<Rightarrow>
                        (case addDoc fault new_id db (GLICEMIA_COLLECTION appId userId)
                                \<lparr>doc_id = [], glicemia = f_glicemia fm,
                                 data = join_with ''/'' (rev (split_on CHR ''-'' (f_data fm))),
                                 hora = f_hora fm, timestamp = ts\<rparr> of
                           Inl thrown \<Rightarrow>
                             (fm\<lparr>saveMessage := Some (SaveError thrown), loadingSave := False\<rparr>,
                              db)
                         | Inr db' \<Rightarrow>
                             (fm\<lparr>saveMessage := Some (SaveSuccess (f_glicemia fm)),
                                 f_glicemia := [], loadingSave := False\<rparr>, db')))))"

subsection \<open>Loading the records\<close>




section \<open>The notions of the design document\<close>

text \<open>
  The four clinical bands of the design document and the range of each band, as the
  document lists them.
\<close>

datatype band = Hypoglycemia | Optimal | Moderate | Hyperglycemia

definition in_band :: "band \<Rightarrow> jsnum \<Rightarrow> bool" where
  "in_band b v =
     (case b of
        Hypoglycemia \<Rightarrow> jlt v (Fin 70)
      | Optimal \<Rightarrow> jle (Fin 70) v \<and> jle v (Fin 130)
      | Moderate \<Rightarrow> jlt (Fin 130) v \<and> jle v (Fin 180)
      | Hyperglycemia \<Rightarrow> jlt (Fin 180) v)"

text \<open>
  The band that a status of the summary stands for (the no-data status and the default
  status stand for none) and the band that a row style stands for.
\<close>

definition band_of_status :: "status \<Rightarrow> band option" where
  "band_of_status s =
     (case s of
        Hipoglicemia \<Rightarrow> Some Hypoglycemia
      | Otimo \<Rightarrow> Some Optimal
      | Moderado \<Rightarrow> Some Moderate
      | Hiperglicemia \<Rightarrow> Some Hyperglycemia
      | Info \<Rightarrow> None
      | Normal \<Rightarrow> None)"

definition band_of_style :: "string \<Rightarrow> band option" where
  "band_of_style s =
     (if s = ''text-blue-600 font-bold bg-blue-50 border-blue-200'' then Some Hypoglycemia
      else if s = ''text-green-600 font-bold bg-green-50 border-green-200'' then Some Optimal
      else if s = ''text-yellow-700 font-bold bg-yellow-50 border-yellow-200'' then Some Moderate
      else if s = ''text-red-600 font-bold bg-red-50 border-red-200'' then Some Hyperglycemia
      else None)"

text \<open>
  The arithmetic mean of a list of Numbers, computed the way the language computes it:
  the sum from left to right, starting at \<open>0\<close>, divided by the length.
\<close>

definition jsum :: "jsnum list \<Rightarrow> jsnum" where
  "jsum vs = foldl jadd (Fin 0) vs"

definition mean :: "jsnum list \<Rightarrow> jsnum" where
  "mean vs = jdiv (jsum vs) (Fin (of_nat (length vs)))"

text \<open>
  \<open>y\<close> is \<open>q\<close> rounded to \<open>f\<close> decimal places: \<open>y\<close> has at most \<open>f\<close>
  decimals and lies within half a unit of the last place of \<open>q\<close>.
\<close>

definition rounded_to :: "nat \<Rightarrow> rat \<Rightarrow> rat \<Rightarrow> bool" where
  "rounded_to f q y =
     (y * 10 ^ f = of_int \<lfloor>y * 10 ^ f\<rfloor> \<and> \<bar>y - q\<bar> \<le> 1 / (2 * 10 ^ f))"

text \<open>
  What \<open>toFixed\<close> may show for \<open>x\<close> with \<open>f\<close> decimals: \<open>x\<close> rounded
  to \<open>f\<close> decimal places, or \<open>x\<close> itself when it is not finite or is at least
  \<open>10^21\<close> in magnitude.
\<close>

definition shown_as :: "nat \<Rightarrow> jsnum \<Rightarrow> jsnum \<Rightarrow> bool" where
  "shown_as f x y =
     (case x of
        Fin q \<Rightarrow>
          if \<bar>q\<bar> < 10 ^ 21 then (case y of Fin r \<Rightarrow> rounded_to f q r | _ \<Rightarrow> False)
          else y = x
      | _ \<Rightarrow> y = x)"

text \<open>A listed record with the reading \<open>g\<close>; the statistics read no other field.\<close>

definition reading :: "string \<Rightarrow> registro" where
  "reading g = \<lparr>doc_id = [], glicemia = g, data = [], hora = [], timestamp = 0\<rparr>"

text \<open>A Number that is a whole number, not negative; and the natural number it is.\<close>

definition whole :: "jsnum \<Rightarrow> bool" where
  "whole v = (case v of Fin q \<Rightarrow> 0 \<le> q \<and> q = of_int \<lfloor>q\<rfloor> | _ \<Rightarrow> False)"

definition magnitude :: "jsnum \<Rightarrow> nat" where
  "magnitude v = (case v of Fin q \<Rightarrow> nat \<lfloor>q\<rfloor> | _ \<Rightarrow> 0)"

text \<open>
  A calendar date \<open>YYYY-MM-DD\<close>: the day exists in its month. Dates are compared
  by year, then month, then day.
\<close>

definition days_in_month :: "int \<Rightarrow> nat \<Rightarrow> nat" where
  "days_in_month y m =
     (if m = 2 then (if InLeapYear y then 29 else 28)
      else if m = 4 \<or> m = 6 \<or> m = 9 \<or> m = 11 then 30 else 31)"

definition calendar_date :: "string \<Rightarrow> (nat \<times> nat \<times> nat) option" where
  "calendar_date s =
     (if length s = 10 \<and> list_all is_digit (take 4 s) then
        (case iso_date s of
           None \<Rightarrow> None
         | Some (y, m, d) \<Rightarrow> if d \<le> days_in_month y m then Some (nat y, m, d) else None)
      else None)"

text \<open>A time of day \<open>HH:MM\<close>: hour 00 to 23 and minute 00 to 59.\<close>

fun clock_time :: "string \<Rightarrow> (nat \<times> nat) option" where
  "clock_time [h1, h2, c, m1, m2] =
     (if c = CHR '':'' then
        (case (digits_n 2 [h1, h2], digits_n 2 [m1, m2]) of
           (Some h, Some mi) \<Rightarrow> if h \<le> 23 \<and> mi \<le> 59 then Some (h, mi) else None
         | _ \<Rightarrow> None)
      else None)"
| "clock_time _ = None"


text \<open>
  Time zones for the examples: UTC itself, a zone three hours behind UTC the whole year,
  as in Sao Paulo, and the zone of New York in 2024, five hours behind UTC and four
  hours behind it during daylight saving time, from 03:00 of the 10th of March to 02:00
  of the 3rd of November, local time. And an engine with no heuristics of its own, for
  which every string outside the format is an invalid date.
\<close>

definition utc_zone :: "int \<Rightarrow> int" where
  "utc_zone t = 0"

definition sao_paulo :: "int \<Rightarrow> int" where
  "sao_paulo t = - 10800000"


definition no_heuristics :: "string \<Rightarrow> int option" where
  "no_heuristics s = None"

text \<open>
  A store for the examples: the collection of user \<open>u1\<close> holds two readings of the
  5th of March 2024 and one of the day before, in the order in which they were written;
  the instants are those of local times three hours behind UTC. And the store that
  holds nothing.
\<close>

definition empty_store :: store where
  "empty_store path = []"





section \<open>Properties of Numbers\<close>

lemma jle_refl: "v \<noteq> NaN \<Longrightarrow> jle v v"
  by (cases v) (simp_all add: jle_def)

lemma bitlen_eqI: "2 ^ k \<le> n \<Longrightarrow> n < 2 ^ Suc k \<Longrightarrow> bitlen n = int k + 1"
proof -
  assume a: "2 ^ k \<le> n" and b: "n < 2 ^ Suc k"
  have "bitlen n \<le> int k + 1" using b by (simp add: bitlen_le_iff_power nat_add_distrib)
  moreover have "int k + 1 \<le> bitlen n" using a by (simp add: bitlen_ge_iff_power nat_add_distrib)
  ultimately show ?thesis by simp
qed

lemma binade_eqI:
  assumes "2 ^ k \<le> a" "a < 2 ^ Suc k"
  shows "binade a = int k"
proof -
  have one: "1 \<le> a" using assms(1) by (meson one_le_numeral one_le_power order_trans)
  have "(2::int) ^ k \<le> \<lfloor>a\<rfloor>" using assms(1) by (simp add: le_floor_iff)
  moreover have "\<lfloor>a\<rfloor> < (2::int) ^ Suc k" using assms(2) by (simp add: floor_less_iff)
  ultimately have "bitlen \<lfloor>a\<rfloor> = int k + 1" by (rule bitlen_eqI)
  then show ?thesis using one by (simp add: binade_def)
qed

lemma roundTiesToEven_eqI: "\<bar>m - of_int n\<bar> < 1 / 2 \<Longrightarrow> roundTiesToEven m = n"
proof -
  assume h: "\<bar>m - of_int n\<bar> < 1 / 2"
  show ?thesis
  proof (cases "of_int n \<le> m")
    case True
    then have "\<lfloor>m\<rfloor> = n" using h by (intro floor_unique) auto
    then show ?thesis using h True by (simp add: roundTiesToEven_def Let_def)
  next
    case False
    then have f: "\<lfloor>m\<rfloor> = n - 1" using h by (intro floor_unique) auto
    show ?thesis using h False unfolding roundTiesToEven_def Let_def f by auto
  qed
qed

lemma pow2_sub: "pow2 (int k - int p) = 2 ^ k / 2 ^ p"
proof (cases "p \<le> k")
  case True
  then have "(2::rat) ^ k = 2 ^ (k - p) * 2 ^ p" by (simp flip: power_add)
  moreover have "nat (int k - int p) = k - p" by simp
  ultimately show ?thesis using True by (simp add: pow2_def)
next
  case False
  then have "(2::rat) ^ p = 2 ^ (p - k) * 2 ^ k" by (simp flip: power_add)
  moreover have "nat (int p - int k) = p - k" by simp
  ultimately show ?thesis using False by (simp add: pow2_def)
qed

lemma pow2_ulp: "pow2 (int k - 52) = 2 ^ k / 2 ^ 52"
  using pow2_sub [of k 52] by simp

text \<open>
  The rounding of a number of a known binade: once \<open>2^k \<le> q < 2^(k+1)\<close>, the
  double nearest to \<open>q\<close> is \<open>n * 2^k / 2^52\<close> for the integer \<open>n\<close> within one
  half of \<open>q * 2^52 / 2^k\<close>.
\<close>

lemma fl_eqI:
  assumes lo: "2 ^ k \<le> q" and hi: "q < 2 ^ Suc k" and k: "k \<le> 1022"
    and n: "\<bar>q * 2 ^ 52 / 2 ^ k - of_int n\<bar> < 1 / 2"
  shows "fl q = Fin (of_int n * 2 ^ k / 2 ^ 52)"
proof -
  have pos: "0 < q" using lo by (meson less_le_trans zero_less_numeral zero_less_power)
  have b: "max (binade \<bar>q\<bar>) (- 1022) = int k"
    using binade_eqI [OF lo hi] pos by simp
  have r: "roundTiesToEven (\<bar>q\<bar> / (2 ^ k / 2 ^ 52)) = n"
    using roundTiesToEven_eqI [OF n] pos by simp
  have "q * 2 ^ 52 / 2 ^ k < 2 ^ 53"
    using hi by (simp add: field_simps)
  then have "of_int n < (2::rat) ^ 53 + 1 / 2" using n by linarith
  then have "of_int n < (of_int (2 ^ 53 + 1) :: rat)" by simp
  then have nle: "n \<le> 2 ^ 53" unfolding of_int_less_iff by simp
  have "of_int n * (2::rat) ^ k / 2 ^ 52 \<le> 2 ^ 53 * 2 ^ k / 2 ^ 52"
  proof -
    have "(of_int n :: rat) \<le> of_int (2 ^ 53)" using nle unfolding of_int_le_iff .
    then have "(of_int n :: rat) \<le> 2 ^ 53" by simp
    then show ?thesis by (simp add: divide_right_mono mult_right_mono)
  qed
  also have "\<dots> = 2 * 2 ^ k" by simp
  also have "\<dots> \<le> 2 * (2::rat) ^ 1022"
  proof -
    have "(2::rat) ^ k \<le> 2 ^ 1022" by (rule power_increasing) (use k in simp_all)
    then show ?thesis by (rule mult_left_mono) simp
  qed
  also have "\<dots> < 2 ^ 1024" by simp
  finally have small: "\<not> 2 ^ 1024 \<le> of_int n * (2::rat) ^ k / 2 ^ 52" by simp
  show ?thesis
    using pos small unfolding fl_def Let_def b pow2_ulp r by simp
qed

text \<open>
  A double is rounded to itself; in particular every natural number up to \<open>2^53\<close>
  is a double, and a sum of such numbers that stays below \<open>2^53\<close> is exact.
\<close>

lemma fl_exact:
  assumes "2 ^ k \<le> q" "q < 2 ^ Suc k" "k \<le> 1022" "q * 2 ^ 52 / 2 ^ k = of_int n"
  shows "fl q = Fin q"
proof -
  have "\<bar>q * 2 ^ 52 / 2 ^ k - of_int n\<bar> < 1 / 2" using assms(4) by simp
  then have "fl q = Fin (of_int n * 2 ^ k / 2 ^ 52)"
    using assms(1-3) by (rule fl_eqI [rotated 3])
  moreover have "of_int n * 2 ^ k / 2 ^ 52 = q"
    using assms(4) [symmetric] by simp
  ultimately show ?thesis by simp
qed

lemma nat_binade: "0 < n \<Longrightarrow> \<exists>k. 2 ^ k \<le> n \<and> n < 2 ^ Suc k" for n :: nat
proof -
  assume n: "0 < n"
  have b: "2 ^ (floorlog 2 n - 1) \<le> n \<and> n < 2 ^ floorlog 2 n"
    using floorlog_bounds [of n 2] n by simp
  have "floorlog 2 n \<noteq> 0" using n by (simp add: floorlog_eq_zero_iff)
  then have "Suc (floorlog 2 n - 1) = floorlog 2 n" by simp
  then show ?thesis using b by metis
qed

lemma fl_of_nat: 
  assumes "n \<le> 2 ^ 53"
  shows "fl (of_nat n) = Fin (of_nat n)"
proof (cases "n = 0")
  case True
  then show ?thesis by (simp add: fl_def)
next
  case False
  then obtain k where k: "2 ^ k \<le> n" "n < 2 ^ Suc k" using nat_binade by blast
  have lo: "(2::rat) ^ k \<le> of_nat n" using k(1) by (metis of_nat_le_iff of_nat_numeral of_nat_power)
  have hi: "(of_nat n :: rat) < 2 ^ Suc k" using k(2) by (metis of_nat_less_iff of_nat_numeral of_nat_power)
  have "(2::nat) ^ k \<le> 2 ^ 53" using k(1) assms by (rule order_trans)
  then have k53: "k \<le> 53" by (rule power_le_imp_le_exp [rotated]) simp
  show ?thesis
  proof (cases "k \<le> 52")
    case True
    then have "(52 - k) + k = 52" by simp
    then have e: "(2::rat) ^ 52 = 2 ^ (52 - k) * 2 ^ k" by (metis power_add)
    have "(of_nat n :: rat) * 2 ^ 52 / 2 ^ k = of_nat n * 2 ^ (52 - k)" unfolding e by simp
    also have "\<dots> = of_int (int n * 2 ^ (52 - k))" by simp
    finally have x: "(of_nat n :: rat) * 2 ^ 52 / 2 ^ k = of_int (int n * 2 ^ (52 - k))" .
    show ?thesis by (rule fl_exact [OF lo hi _ x]) (use True in simp)
  next
    case False
    then have k: "k = 53" using k53 by simp
    then have "n = 2 ^ 53" using \<open>2 ^ k \<le> n\<close> assms by simp
    then have x: "(of_nat n :: rat) * 2 ^ 52 / 2 ^ k = of_int (2 ^ 52)" using k by simp
    show ?thesis by (rule fl_exact [OF lo hi _ x]) (use k in simp)
  qed
qed

lemma whole_magnitude: "whole v \<Longrightarrow> v = Fin (of_nat (magnitude v))"
  by (cases v) (auto simp add: whole_def magnitude_def)

lemma jadd_exact:
  assumes "whole v" "a + magnitude v \<le> 2 ^ 53"
  shows "jadd (Fin (of_nat a)) v = Fin (of_nat (a + magnitude v))"
proof -
  define m where "m = magnitude v"
  have v: "v = Fin (of_nat m)" unfolding m_def using assms(1) by (rule whole_magnitude)
  have "jadd (Fin (of_nat a)) (Fin (of_nat m)) = fl (of_nat a + of_nat m)" by simp
  also have "\<dots> = fl (of_nat (a + m))" by simp
  also have "\<dots> = Fin (of_nat (a + m))" by (rule fl_of_nat) (use assms(2) m_def in simp)
  finally have "jadd (Fin (of_nat a)) (Fin (of_nat m)) = Fin (of_nat (a + m))" .
  then have "jadd (Fin (of_nat a)) v = Fin (of_nat (a + m))" unfolding v .
  then show ?thesis unfolding m_def .
qed

lemma foldl_jadd_exact:
  "list_all whole vs \<Longrightarrow> a + sum_list (map magnitude vs) \<le> 2 ^ 53 \<Longrightarrow>
     foldl jadd (Fin (of_nat a)) vs = Fin (of_nat (a + sum_list (map magnitude vs)))"
proof (induction vs arbitrary: a)
  case Nil
  then show ?case by simp
next
  case (Cons v vs)
  then have w: "whole v" and ws: "list_all whole vs" by auto
  have le: "a + magnitude v \<le> 2 ^ 53" using Cons.prems(2) by simp
  note step = jadd_exact [OF w le]
  have "(a + magnitude v) + sum_list (map magnitude vs) \<le> 2 ^ 53" using Cons.prems(2) by simp
  from Cons.IH [OF ws this]
  have "foldl jadd (jadd (Fin (of_nat a)) v) vs
      = Fin (of_nat (a + magnitude v + sum_list (map magnitude vs)))"
    unfolding step .
  then show ?case by (simp only: foldl.simps list.map sum_list.Cons add.assoc)
qed

lemma jsum_exact:
  "list_all whole vs \<Longrightarrow> sum_list (map magnitude vs) \<le> 2 ^ 53 \<Longrightarrow>
     jsum vs = Fin (of_nat (sum_list (map magnitude vs)))"
  using foldl_jadd_exact [of vs 0] by (simp add: jsum_def)

section \<open>The classifier\<close>

lemma style_of_band:
  "v \<noteq> NaN \<Longrightarrow> band_of_style (style_of v) = Some b \<longleftrightarrow> in_band b v"
  by (cases v; cases b) (auto simp add: style_of_def band_of_style_def in_band_def jle_def)

lemma avg_status_band:
  "v \<noteq> NaN \<Longrightarrow> band_of_status (fst (avg_status v)) = Some b \<longleftrightarrow> in_band b v"
  by (cases v; cases b)
     (auto simp add: avg_status_def band_of_status_def in_band_def jle_def jgt_def jge_def)

lemma in_band_unique: "in_band b v \<Longrightarrow> in_band c v \<Longrightarrow> b = c"
  by (cases v; cases b; cases c) (auto simp add: in_band_def jle_def)

lemma in_band_exists: "v \<noteq> NaN \<Longrightarrow> \<exists>b. in_band b v"
proof -
  assume v: "v \<noteq> NaN"
  then have "band_of_style (style_of v) \<noteq> None"
    by (simp add: style_of_def band_of_style_def)
  then obtain b where "band_of_style (style_of v) = Some b" by blast
  then show ?thesis using style_of_band [OF v] by blast
qed

text \<open>
  C1. For every numeric value the row classifier gives exactly one band: the four
  ranges (below 70, from 70 to 130, above 130 up to 180, above 180) cover every number
  and no two of them meet, the style of the row is the style of the band whose range
  holds the value, and 130 is in the band Optimal.
\<close>

theorem classifier_partition:
  "v \<noteq> NaN \<Longrightarrow>
     (\<exists>!b. in_band b v)
     \<and> (\<forall>b. band_of_style (style_of v) = Some b \<longleftrightarrow> in_band b v)
     \<and> band_of_style (style_of (Fin 130)) = Some Optimal"
proof (intro conjI)
  assume v: "v \<noteq> NaN"
  show "\<exists>!b. in_band b v" using in_band_exists [OF v] in_band_unique by blast
  show "\<forall>b. band_of_style (style_of v) = Some b \<longleftrightarrow> in_band b v"
    using style_of_band [OF v] by blast
  show "band_of_style (style_of (Fin 130)) = Some Optimal"
    by (simp add: style_of_def band_of_style_def jle_def)
qed

theorem classifier_partition_witness:
  "Fin 180 \<noteq> NaN \<and> (\<exists>!b. in_band b (Fin 180))
   \<and> band_of_style (style_of (Fin 180)) = Some Moderate \<and> in_band Moderate (Fin 180)"
proof -
  have h: "Fin 180 \<noteq> NaN" by simp
  have m: "in_band Moderate (Fin 180)" by (simp add: in_band_def jle_def)
  show ?thesis using h m classifier_partition [OF h] by simp
qed

text \<open>
  C6. On every numeric value the status chosen for an average and the style chosen for
  a row stand for the same band.
\<close>

theorem batch_and_row_classification_agree:
  "v \<noteq> NaN \<Longrightarrow>
     band_of_status (fst (avg_status v)) = band_of_style (style_of v)
     \<and> band_of_status (fst (avg_status v)) \<noteq> None"
proof -
  assume v: "v \<noteq> NaN"
  obtain b where b: "in_band b v" using in_band_exists [OF v] by blast
  have "band_of_status (fst (avg_status v)) = Some b" using avg_status_band [OF v] b by blast
  moreover have "band_of_style (style_of v) = Some b" using style_of_band [OF v] b by blast
  ultimately show ?thesis by simp
qed

theorem batch_and_row_classification_agree_witness:
  "PosInf \<noteq> NaN
   \<and> band_of_status (fst (avg_status PosInf)) = band_of_style (style_of PosInf)
   \<and> band_of_status (fst (avg_status PosInf)) = Some Hyperglycemia"
proof -
  have h: "PosInf \<noteq> NaN" by simp
  have s: "band_of_style (style_of PosInf) = Some Hyperglycemia"
    by (simp add: style_of_def band_of_style_def jle_def)
  show ?thesis using h s batch_and_row_classification_agree [OF h] by simp
qed

section \<open>The statistics\<close>

text \<open>
  C5. On no record at all the summary has count 0, average 0, minimum 0, maximum 0 and
  the status \<open>info\<close>, which stands for none of the four bands.
\<close>

theorem stats_empty:
  "stats [] = \<lparr>avg = Fin 0, countv = 0, minv = Fin 0, maxv = Fin 0, status = Info, color = None\<rparr>
   \<and> band_of_status (status (stats [])) = None"
  by (simp add: stats_def band_of_status_def)

lemma stats_nonempty:
  "registros \<noteq> [] \<Longrightarrow>
     stats registros =
       \<lparr>avg = toFixed 1 (mean (parsed_values registros)),
        countv = length (parsed_values registros),
        minv = toFixed 0 (Math_min (parsed_values registros)),
        maxv = toFixed 0 (Math_max (parsed_values registros)),
        status = fst (avg_status (mean (parsed_values registros))),
        color = Some (snd (avg_status (mean (parsed_values registros))))\<rparr>"
  by (simp add: stats_def Let_def mean_def jsum_def split_beta)

lemma parsed_values_none:
  "\<forall>r \<in> set registros. isNaN (parseFloat (glicemia r)) \<Longrightarrow> parsed_values registros = []"
  by (simp add: parsed_values_def filter_empty_conv)

lemma parseFloat_abc: "parseFloat ''abc'' = NaN"
  by (simp add: parseFloat_def take_sign_def unsigned_literal_def ascii_space_def utf8_space_def
      is_digit_def)

lemma jle_trans: "jle a b \<Longrightarrow> jle b c \<Longrightarrow> jle a c"
  by (cases a; cases b; cases c) (auto simp add: jle_def)

lemma jmin_cases: "a \<noteq> NaN \<Longrightarrow> x \<noteq> NaN \<Longrightarrow>
  (jmin a x = a \<or> jmin a x = x) \<and> jle (jmin a x) a \<and> jle (jmin a x) x"
  by (cases a; cases x) (auto simp add: jmin_def jle_def)

lemma jmax_cases: "a \<noteq> NaN \<Longrightarrow> x \<noteq> NaN \<Longrightarrow>
  (jmax a x = a \<or> jmax a x = x) \<and> jle a (jmax a x) \<and> jle x (jmax a x)"
  by (cases a; cases x) (auto simp add: jmax_def jle_def)

lemma foldl_jmin:
  "NaN \<notin> set vs \<Longrightarrow> a \<noteq> NaN \<Longrightarrow>
     foldl jmin a vs \<in> insert a (set vs) \<and> jle (foldl jmin a vs) a
     \<and> (\<forall>v \<in> set vs. jle (foldl jmin a vs) v)"
proof (induction vs arbitrary: a)
  case Nil
  then show ?case by (simp add: jle_refl)
next
  case (Cons x xs)
  then have x: "x \<noteq> NaN" and xs: "NaN \<notin> set xs" by auto
  note c = jmin_cases [OF Cons.prems(2) x]
  have n: "jmin a x \<noteq> NaN" using c Cons.prems(2) x by auto
  note ih = Cons.IH [OF xs n]
  show ?case using ih c by (auto intro: jle_trans)
qed

lemma foldl_jmax:
  "NaN \<notin> set vs \<Longrightarrow> a \<noteq> NaN \<Longrightarrow>
     foldl jmax a vs \<in> insert a (set vs) \<and> jle a (foldl jmax a vs)
     \<and> (\<forall>v \<in> set vs. jle v (foldl jmax a vs))"
proof (induction vs arbitrary: a)
  case Nil
  then show ?case by (simp add: jle_refl)
next
  case (Cons x xs)
  then have x: "x \<noteq> NaN" and xs: "NaN \<notin> set xs" by auto
  note c = jmax_cases [OF Cons.prems(2) x]
  have n: "jmax a x \<noteq> NaN" using c Cons.prems(2) x by auto
  note ih = Cons.IH [OF xs n]
  show ?case using ih c by (auto intro: jle_trans)
qed

lemma jle_PosInf: "jle PosInf v \<Longrightarrow> v = PosInf"
  by (cases v) (auto simp add: jle_def)

lemma jle_NegInf: "jle v NegInf \<Longrightarrow> v = NegInf"
  by (cases v) (auto simp add: jle_def)

lemma Math_min_least:
  assumes "NaN \<notin> set vs" "vs \<noteq> []"
  shows "Math_min vs \<in> set vs \<and> (\<forall>v \<in> set vs. jle (Math_min vs) v)"
proof -
  have f: "foldl jmin PosInf vs \<in> insert PosInf (set vs)
      \<and> (\<forall>v \<in> set vs. jle (foldl jmin PosInf vs) v)"
    using foldl_jmin [OF assms(1), of PosInf] by simp
  obtain v where v: "v \<in> set vs" using assms(2) by (cases vs) auto
  have "foldl jmin PosInf vs \<in> set vs"
  proof (cases "foldl jmin PosInf vs = PosInf")
    case True
    then have "v = PosInf" using f v jle_PosInf by metis
    then show ?thesis using True v by simp
  next
    case False
    then show ?thesis using f by auto
  qed
  then show ?thesis using f by (simp add: Math_min_def)
qed

lemma Math_max_greatest:
  assumes "NaN \<notin> set vs" "vs \<noteq> []"
  shows "Math_max vs \<in> set vs \<and> (\<forall>v \<in> set vs. jle v (Math_max vs))"
proof -
  have f: "foldl jmax NegInf vs \<in> insert NegInf (set vs)
      \<and> (\<forall>v \<in> set vs. jle v (foldl jmax NegInf vs))"
    using foldl_jmax [OF assms(1), of NegInf] by simp
  obtain v where v: "v \<in> set vs" using assms(2) by (cases vs) auto
  have "foldl jmax NegInf vs \<in> set vs"
  proof (cases "foldl jmax NegInf vs = NegInf")
    case True
    then have "v = NegInf" using f v jle_NegInf by metis
    then show ?thesis using True v by simp
  next
    case False
    then show ?thesis using f by auto
  qed
  then show ?thesis using f by (simp add: Math_max_def)
qed

lemma parsed_values_no_NaN: "NaN \<notin> set (parsed_values registros)"
  by (simp add: parsed_values_def isNaN_def)

lemma jmin_left_commute: "jmin (jmin a y) x = jmin (jmin a x) y"
  by (cases a; cases x; cases y) (auto simp add: jmin_def)

lemma jmax_left_commute: "jmax (jmax a y) x = jmax (jmax a x) y"
  by (cases a; cases x; cases y) (auto simp add: jmax_def)

lemma Math_min_mset: "mset vs = mset ws \<Longrightarrow> Math_min vs = Math_min ws"
proof -
  assume m: "mset vs = mset ws"
  have "fold (\<lambda>x s. jmin s x) vs = fold (\<lambda>x s. jmin s x) ws"
    by (rule fold_multiset_equiv) (auto simp add: fun_eq_iff jmin_left_commute m)
  then show ?thesis by (simp add: Math_min_def foldl_conv_fold)
qed

lemma Math_max_mset: "mset vs = mset ws \<Longrightarrow> Math_max vs = Math_max ws"
proof -
  assume m: "mset vs = mset ws"
  have "fold (\<lambda>x s. jmax s x) vs = fold (\<lambda>x s. jmax s x) ws"
    by (rule fold_multiset_equiv) (auto simp add: fun_eq_iff jmax_left_commute m)
  then show ?thesis by (simp add: Math_max_def foldl_conv_fold)
qed

lemma parsed_values_mset:
  "mset rs = mset rs' \<Longrightarrow> mset (parsed_values rs) = mset (parsed_values rs')"
  by (simp add: parsed_values_def)

lemma sum_list_mset_cong:
  "mset vs = mset ws \<Longrightarrow> sum_list (map f vs) = sum_list (map f ws)" for f :: "'a \<Rightarrow> nat"
  by (metis mset_map sum_mset_sum_list)

lemma list_all_mset_cong: "mset vs = mset ws \<Longrightarrow> list_all P vs = list_all P ws"
  by (metis list_all_iff mset_eq_setD)

lemma toFixed_shown: "shown_as f x (toFixed f x)"
proof (cases x)
  case (Fin q)
  show ?thesis
  proof (cases "\<bar>q\<bar> < 10 ^ 21")
    case False
    then show ?thesis using Fin by (simp add: shown_as_def toFixed_def)
  next
    case True
    define P :: rat where "P = 10 ^ f"
    define n where "n = \<lfloor>\<bar>q\<bar> * P + 1 / 2\<rfloor>"
    define s :: rat where "s = (if q < 0 then - 1 else 1)"
    define y where "y = s * of_int n / P"
    have P: "0 < P" by (simp add: P_def)
    have t: "toFixed f x = Fin y"
      using True Fin by (simp add: toFixed_def Let_def y_def s_def n_def P_def)
    have sq: "s * \<bar>q\<bar> = q" and s2: "\<bar>s\<bar> = 1" by (auto simp add: s_def)
    have "y * P = s * of_int n" using P by (simp add: y_def)
    also have "\<dots> = of_int ((if q < 0 then - 1 else 1) * n)" by (simp add: s_def)
    finally have i: "y * P = of_int \<lfloor>y * P\<rfloor>" by simp
    have "of_int n \<le> \<bar>q\<bar> * P + 1 / 2" and "\<bar>q\<bar> * P + 1 / 2 < of_int n + 1"
      unfolding n_def by linarith+
    then have d: "\<bar>of_int n - \<bar>q\<bar> * P\<bar> \<le> 1 / 2" by linarith
    have "y - q = s * (of_int n - \<bar>q\<bar> * P) / P"
      using P sq by (simp add: y_def field_simps)
    then have "\<bar>y - q\<bar> = \<bar>of_int n - \<bar>q\<bar> * P\<bar> / P"
      using P s2 by (simp add: abs_mult)
    also have "\<dots> \<le> (1 / 2) / P" by (rule divide_right_mono [OF d less_imp_le [OF P]])
    finally have "\<bar>y - q\<bar> \<le> 1 / (2 * P)" by simp
    then have "rounded_to f q y" using i by (simp add: rounded_to_def P_def)
    then show ?thesis using True Fin t by (simp add: shown_as_def)
  qed
qed (simp_all add: shown_as_def toFixed_def)

text \<open>
  C2 (as amended). When at least one reading parses, the summary is computed from the
  readings that parse, the others being left out: the count is their number, the
  average is their mean rounded to one decimal place, the minimum and the maximum are
  their least and greatest value rounded to no decimal place, and the status stands for
  the band of the mean before rounding whenever that mean is a number. When the mean
  is \<open>NaN\<close> the status is the default \<open>normal\<close>.
\<close>

theorem stats_summary:
  assumes "parsed_values registros \<noteq> []"
  shows "parsed_values registros
           = filter (\<lambda>v. v \<noteq> NaN) (map (\<lambda>r. parseFloat (glicemia r)) registros)
     \<and> countv (stats registros) = length (parsed_values registros)
     \<and> avg (stats registros) = toFixed 1 (mean (parsed_values registros))
     \<and> shown_as 1 (mean (parsed_values registros)) (avg (stats registros))
     \<and> (\<exists>lo \<in> set (parsed_values registros).
           (\<forall>v \<in> set (parsed_values registros). jle lo v)
           \<and> minv (stats registros) = toFixed 0 lo \<and> shown_as 0 lo (minv (stats registros)))
     \<and> (\<exists>hi \<in> set (parsed_values registros).
           (\<forall>v \<in> set (parsed_values registros). jle v hi)
           \<and> maxv (stats registros) = toFixed 0 hi \<and> shown_as 0 hi (maxv (stats registros)))
     \<and> (mean (parsed_values registros) \<noteq> NaN \<longrightarrow>
           (\<forall>b. band_of_status (status (stats registros)) = Some b
                 \<longleftrightarrow> in_band b (mean (parsed_values registros))))
     \<and> (mean (parsed_values registros) = NaN \<longrightarrow> status (stats registros) = Normal)"
proof -
  have ne: "registros \<noteq> []" using assms by (auto simp add: parsed_values_def)
  note s = stats_nonempty [OF ne]
  note lo = Math_min_least [OF parsed_values_no_NaN assms]
  note hi = Math_max_greatest [OF parsed_values_no_NaN assms]
  have 1: "parsed_values registros
           = filter (\<lambda>v. v \<noteq> NaN) (map (\<lambda>r. parseFloat (glicemia r)) registros)"
    by (simp add: parsed_values_def isNaN_def)
  have 5: "\<exists>lo \<in> set (parsed_values registros).
           (\<forall>v \<in> set (parsed_values registros). jle lo v)
           \<and> minv (stats registros) = toFixed 0 lo \<and> shown_as 0 lo (minv (stats registros))"
    using lo by (intro bexI [of _ "Math_min (parsed_values registros)"]) (simp_all add: s toFixed_shown)
  have 6: "\<exists>hi \<in> set (parsed_values registros).
           (\<forall>v \<in> set (parsed_values registros). jle v hi)
           \<and> maxv (stats registros) = toFixed 0 hi \<and> shown_as 0 hi (maxv (stats registros))"
    using hi by (intro bexI [of _ "Math_max (parsed_values registros)"]) (simp_all add: s toFixed_shown)
  have 7: "mean (parsed_values registros) \<noteq> NaN \<longrightarrow>
           (\<forall>b. band_of_status (status (stats registros)) = Some b
                 \<longleftrightarrow> in_band b (mean (parsed_values registros)))"
    by (simp add: s avg_status_band)
  have 8: "mean (parsed_values registros) = NaN \<longrightarrow> status (stats registros) = Normal"
    by (simp add: s avg_status_def jgt_def jge_def jle_def)
  show ?thesis using 1 5 6 7 8 by (simp add: s toFixed_shown)
qed

text \<open>
  C9 (as amended). For a list of records and any reordering of it the count, the
  minimum and the maximum are the same; the whole summary is the same when every
  reading that parses is a whole number, not negative, and their total is at most
  \<open>2^53\<close>, so that every partial sum is exact.
\<close>

theorem stats_permutation:
  assumes "mset registros = mset registros'"
  shows "countv (stats registros) = countv (stats registros')
     \<and> minv (stats registros) = minv (stats registros')
     \<and> maxv (stats registros) = maxv (stats registros')
     \<and> (list_all whole (parsed_values registros)
          \<and> sum_list (map magnitude (parsed_values registros)) \<le> 2 ^ 53
        \<longrightarrow> stats registros = stats registros')"
proof (cases "registros = []")
  case True
  then have "registros' = []" using assms by simp
  then show ?thesis using True by simp
next
  case False
  then have ne: "registros' \<noteq> []" using assms by auto
  note m = parsed_values_mset [OF assms]
  note s = stats_nonempty [OF False] stats_nonempty [OF ne]
  have len: "length (parsed_values registros) = length (parsed_values registros')"
    using m by (rule mset_eq_length)
  have lo: "Math_min (parsed_values registros) = Math_min (parsed_values registros')"
    using m by (rule Math_min_mset)
  have hi: "Math_max (parsed_values registros) = Math_max (parsed_values registros')"
    using m by (rule Math_max_mset)
  have ex: "mean (parsed_values registros) = mean (parsed_values registros')"
    if w: "list_all whole (parsed_values registros)"
      and t: "sum_list (map magnitude (parsed_values registros)) \<le> 2 ^ 53"
  proof -
    have w': "list_all whole (parsed_values registros')"
      using w list_all_mset_cong [OF m] by simp
    have e: "sum_list (map magnitude (parsed_values registros))
        = sum_list (map magnitude (parsed_values registros'))"
      using m by (rule sum_list_mset_cong)
    have "jsum (parsed_values registros) = jsum (parsed_values registros')"
      using jsum_exact [OF w t] jsum_exact [OF w'] t e by simp
    then show ?thesis using len by (simp add: mean_def)
  qed
  show ?thesis using len lo hi ex by (simp add: s)
qed

subsection \<open>Concrete summaries\<close>

lemma floor_rat_numeral: "\<lfloor>(numeral a / numeral b :: rat)\<rfloor> = numeral a div numeral b"
  using floor_divide_of_int_eq [of "numeral a" "numeral b", where ?'a = rat] by simp

lemma fl_numeral: "numeral n \<le> (2::nat) ^ 53 \<Longrightarrow> fl (numeral n) = Fin (numeral n)"
  using fl_of_nat [of "numeral n"] by simp

lemmas parse_defs = parseFloat_def take_sign_def unsigned_literal_def ascii_space_def
  utf8_space_def is_digit_def digits_val_def digit_val_def exponent_part_def pow10_def

lemma parsed_50_200:
  "parsed_values [reading ''50'', reading ''200''] = [Fin 50, Fin 200]"
  by (simp add: parsed_values_def reading_def isNaN_def parse_defs fl_numeral)

lemma mean_50_200: "mean [Fin 50, Fin 200] = Fin 125"
  by (simp add: mean_def jsum_def fl_numeral)

text \<open>
  The example of the design document: the readings 50 and 200 give the count 2, the
  average 125.0 and the band of the average, not of a reading.
\<close>

theorem stats_summary_witness:
  "parsed_values [reading ''50'', reading ''200''] \<noteq> []
   \<and> countv (stats [reading ''50'', reading ''200'']) = 2
   \<and> avg (stats [reading ''50'', reading ''200'']) = Fin 125
   \<and> band_of_status (status (stats [reading ''50'', reading ''200''])) = Some Optimal"
proof -
  have h: "parsed_values [reading ''50'', reading ''200''] \<noteq> []"
    by (simp add: parsed_50_200)
  have o: "in_band Optimal (Fin 125)" by (simp add: in_band_def jle_def)
  have t: "toFixed 1 (Fin 125) = Fin 125" by (simp add: toFixed_def floor_rat_numeral)
  have n: "Fin 125 \<noteq> NaN" by simp
  have c1: "countv (stats [reading ''50'', reading ''200'']) = length [Fin 50, Fin 200]"
    using stats_summary [OF h] unfolding parsed_50_200 mean_50_200 by blast
  have c2: "avg (stats [reading ''50'', reading ''200'']) = toFixed 1 (Fin 125)"
    using stats_summary [OF h] unfolding parsed_50_200 mean_50_200 by blast
  have c3: "band_of_status (status (stats [reading ''50'', reading ''200''])) = Some Optimal
      \<longleftrightarrow> in_band Optimal (Fin 125)"
    using stats_summary [OF h] n unfolding parsed_50_200 mean_50_200 by blast
  show ?thesis using h o t c1 c2 c3 by simp
qed

text \<open>
  The claim C2 as it was written fails on the two readings \<open>Infinity\<close> and
  \<open>-Infinity\<close>: both parse, their sum is \<open>NaN\<close>, and the status is the default
  one, which stands for no band, while the row classifier puts \<open>NaN\<close> in the last band.
\<close>

lemma parsed_inf:
  "parsed_values [reading ''Infinity'', reading ''-Infinity''] = [PosInf, NegInf]"
  by (simp add: parsed_values_def reading_def isNaN_def parse_defs jneg_def)

theorem stats_status_counterexample:
  "parsed_values [reading ''Infinity'', reading ''-Infinity''] = [PosInf, NegInf]
   \<and> mean (parsed_values [reading ''Infinity'', reading ''-Infinity'']) = NaN
   \<and> status (stats [reading ''Infinity'', reading ''-Infinity'']) = Normal
   \<and> band_of_status (status (stats [reading ''Infinity'', reading ''-Infinity''])) = None
   \<and> band_of_style (style_of (mean (parsed_values [reading ''Infinity'', reading ''-Infinity''])))
       = Some Hyperglycemia"
  by (simp add: stats_nonempty parsed_inf mean_def jsum_def avg_status_def jgt_def jge_def jle_def
      band_of_status_def style_of_def band_of_style_def)

text \<open>Two whole readings in both orders have the same summary.\<close>

theorem stats_permutation_witness:
  "mset [reading ''50'', reading ''200''] = mset [reading ''200'', reading ''50'']
   \<and> list_all whole (parsed_values [reading ''50'', reading ''200''])
   \<and> sum_list (map magnitude (parsed_values [reading ''50'', reading ''200''])) \<le> 2 ^ 53
   \<and> stats [reading ''50'', reading ''200''] = stats [reading ''200'', reading ''50'']"
proof -
  have m: "mset [reading ''50'', reading ''200''] = mset [reading ''200'', reading ''50'']"
    by simp
  have w: "list_all whole (parsed_values [reading ''50'', reading ''200''])"
    by (simp add: parsed_50_200 whole_def)
  have t: "sum_list (map magnitude (parsed_values [reading ''50'', reading ''200''])) \<le> 2 ^ 53"
    by (simp add: parsed_50_200 magnitude_def)
  show ?thesis using m w t stats_permutation [OF m] by blast
qed

text \<open>
  The claim C9 as it was written fails on four readings with one decimal: the sum from
  left to right is rounded after every addition, and the two orders below end on the two
  sides of 191.55. The lemmas give every rounding of the two computations.
\<close>

lemma fl_step_1: "fl (743 / 5) = Fin (5228397692400435 / 35184372088832)"
  using fl_eqI [of 7 "743 / 5" 5228397692400435] by simp

lemma fl_step_2: "fl (922 / 5) = Fin (6487998213180621 / 35184372088832)"
  using fl_eqI [of 7 "922 / 5" 6487998213180621] by simp

lemma fl_step_3: "fl (2161 / 10) = Fin (7603342808396595 / 35184372088832)"
  using fl_eqI [of 7 "2161 / 10" 7603342808396595] by simp

lemma fl_step_4: "fl (2171 / 10) = Fin (7638527180485427 / 35184372088832)"
  using fl_eqI [of 7 "2171 / 10" 7638527180485427] by simp

lemma fl_step_5: "fl (5228397692400435 / 35184372088832) = Fin (5228397692400435 / 35184372088832)"
  using fl_eqI [of 7 "5228397692400435 / 35184372088832" 5228397692400435] by simp

lemma fl_step_6: "fl 333 = Fin 333"
  using fl_eqI [of 8 333 5858197952790528] by simp

lemma fl_step_7: "fl (19319738713977651 / 35184372088832) = Fin (4829934678494413 / 8796093022208)"
  using fl_eqI [of 9 "19319738713977651 / 35184372088832" 4829934678494413] by simp

lemma fl_step_8: "fl (26958265894463079 / 35184372088832) = Fin (3369783236807885 / 4398046511104)"
  using fl_eqI [of 9 "26958265894463079 / 35184372088832" 6739566473615770] by simp

lemma fl_step_9: "fl (3369783236807885 / 17592186044416) = Fin (3369783236807885 / 17592186044416)"
  using fl_eqI [of 7 "3369783236807885 / 17592186044416" 6739566473615770] by simp

lemma fl_step_10: "fl (6415870250398515 / 17592186044416) = Fin (6415870250398515 / 17592186044416)"
  using fl_eqI [of 8 "6415870250398515 / 17592186044416" 6415870250398515] by simp

lemma fl_step_11: "fl (20470267681282457 / 35184372088832) = Fin (2558783460160307 / 4398046511104)"
  using fl_eqI [of 9 "20470267681282457 / 35184372088832" 5117566920320614] by simp

lemma fl_step_12: "fl (26958265894463077 / 35184372088832) = Fin (6739566473615769 / 8796093022208)"
  using fl_eqI [of 9 "26958265894463077 / 35184372088832" 6739566473615769] by simp

lemma fl_step_13: "fl (6739566473615769 / 35184372088832) = Fin (6739566473615769 / 35184372088832)"
  using fl_eqI [of 7 "6739566473615769 / 35184372088832" 6739566473615769] by simp

lemmas fl_steps = fl_step_1 fl_step_2 fl_step_3 fl_step_4 fl_step_5 fl_step_6 fl_step_7 fl_step_8 fl_step_9 fl_step_10 fl_step_11 fl_step_12 fl_step_13

lemma parsed_a:
  "parsed_values [reading ''148.6'', reading ''184.4'', reading ''216.1'', reading ''217.1'']
   = [Fin (5228397692400435 / 35184372088832), Fin (6487998213180621 / 35184372088832),
      Fin (7603342808396595 / 35184372088832), Fin (7638527180485427 / 35184372088832)]"
  by (simp add: parsed_values_def reading_def isNaN_def parse_defs fl_steps)

lemma parsed_b:
  "parsed_values [reading ''148.6'', reading ''216.1'', reading ''217.1'', reading ''184.4'']
   = [Fin (5228397692400435 / 35184372088832), Fin (7603342808396595 / 35184372088832),
      Fin (7638527180485427 / 35184372088832), Fin (6487998213180621 / 35184372088832)]"
  by (simp add: parsed_values_def reading_def isNaN_def parse_defs fl_steps)

lemma mean_a:
  "mean [Fin (5228397692400435 / 35184372088832), Fin (6487998213180621 / 35184372088832),
      Fin (7603342808396595 / 35184372088832), Fin (7638527180485427 / 35184372088832)]
   = Fin (3369783236807885 / 17592186044416)"
  by (simp add: mean_def jsum_def fl_steps)

lemma mean_b:
  "mean [Fin (5228397692400435 / 35184372088832), Fin (7603342808396595 / 35184372088832),
      Fin (7638527180485427 / 35184372088832), Fin (6487998213180621 / 35184372088832)]
   = Fin (6739566473615769 / 35184372088832)"
  by (simp add: mean_def jsum_def fl_steps)

theorem stats_order_counterexample:
  "mset [reading ''148.6'', reading ''184.4'', reading ''216.1'', reading ''217.1'']
     = mset [reading ''148.6'', reading ''216.1'', reading ''217.1'', reading ''184.4'']
   \<and> avg (stats [reading ''148.6'', reading ''184.4'', reading ''216.1'', reading ''217.1''])
       = Fin (1916 / 10)
   \<and> avg (stats [reading ''148.6'', reading ''216.1'', reading ''217.1'', reading ''184.4''])
       = Fin (1915 / 10)"
  by (simp add: stats_nonempty parsed_a parsed_b mean_a mean_b toFixed_def floor_rat_numeral)

text \<open>
  C10. When the list is not empty and no reading parses, the status is not the no-data
  status: no value is left, the count is 0, the average is \<open>0 / 0\<close>, which is
  \<open>NaN\<close>, the minimum and the maximum are those of no value at all (\<open>Infinity\<close>
  and \<open>-Infinity\<close>) and the status stays at its default \<open>normal\<close>, since
  \<open>NaN\<close> passes none of the four comparisons.
\<close>

theorem stats_nothing_parses:
  assumes "registros \<noteq> []" and "\<forall>r \<in> set registros. isNaN (parseFloat (glicemia r))"
  shows "parsed_values registros = []
     \<and> stats registros =
         \<lparr>avg = NaN, countv = 0, minv = PosInf, maxv = NegInf, status = Normal,
          color = Some ''bg-green-500''\<rparr>
     \<and> status (stats registros) \<noteq> Info"
proof -
  have e: "parsed_values registros = []" using assms(2) by (rule parsed_values_none)
  have m: "mean [] = NaN" by (simp add: mean_def jsum_def)
  have s: "avg_status NaN = (Normal, ''bg-green-500'')"
    by (simp add: avg_status_def jgt_def jge_def jle_def)
  show ?thesis
    using assms(1) by (simp add: stats_nonempty e m s Math_min_def Math_max_def toFixed_def)
qed

theorem stats_nothing_parses_witness:
  "[\<lparr>doc_id = ''r1'', glicemia = ''abc'', data = ''05/03/2024'', hora = ''10:00'',
      timestamp = 1709632800000\<rparr>] \<noteq> []
   \<and> isNaN (parseFloat ''abc'')
   \<and> stats [\<lparr>doc_id = ''r1'', glicemia = ''abc'', data = ''05/03/2024'', hora = ''10:00'',
              timestamp = 1709632800000\<rparr>] =
        \<lparr>avg = NaN, countv = 0, minv = PosInf, maxv = NegInf, status = Normal,
         color = Some ''bg-green-500''\<rparr>"
  using stats_nothing_parses [of "[\<lparr>doc_id = ''r1'', glicemia = ''abc'', data = ''05/03/2024'',
      hora = ''10:00'', timestamp = 1709632800000\<rparr>]"]
  by (simp add: parseFloat_abc isNaN_def)

section \<open>Dates and instants\<close>

lemmas date_defs = newDate_def UTC_def iso_date_def iso_year_def digits_n_def is_digit_def
  digits_val_def digit_val_def TimeClip_def MakeDate_def MakeDay_def MakeTime_def
  DayFromYear_def month_start_def InLeapYear_def Let_def

lemma digits_no_T: "list_all is_digit ds \<Longrightarrow> CHR ''T'' \<notin> set ds"
  by (induction ds) (auto simp add: is_digit_def)

lemma digits_n_no_T: "digits_n n ds = Some v \<Longrightarrow> CHR ''T'' \<notin> set ds"
  by (simp add: digits_n_def digits_no_T split: if_splits)

lemma month_and_day_no_T: "month_and_day r = Some x \<Longrightarrow> CHR ''T'' \<notin> set r"
  by (cases r rule: month_and_day.cases)
     (auto simp add: digits_n_def is_digit_def split: if_splits option.splits)

lemma iso_year_no_T:
  assumes "iso_year s = Some (y, r)"
  shows "\<exists>p. s = p @ r \<and> CHR ''T'' \<notin> set p"
proof (cases s)
  case Nil
  then show ?thesis using assms by (simp add: iso_year_def)
next
  case (Cons c u)
  show ?thesis
  proof (cases "c = CHR ''+'' \<or> c = CHR ''-''")
    case True
    then have d: "digits_n 6 (take 6 u) \<noteq> None" and r: "r = drop 6 u"
      using assms Cons by (auto simp add: iso_year_def split: if_splits option.splits)
    then have "CHR ''T'' \<notin> set (take 6 u)" using digits_n_no_T by blast
    then have "CHR ''T'' \<notin> set (c # take 6 u)" using True by auto
    moreover have "s = (c # take 6 u) @ r" using Cons r by simp
    ultimately show ?thesis by blast
  next
    case False
    then have d: "digits_n 4 (take 4 s) \<noteq> None" and r: "r = drop 4 s"
      using assms Cons by (auto simp add: iso_year_def split: if_splits option.splits)
    then have "CHR ''T'' \<notin> set (take 4 s)" using digits_n_no_T by blast
    moreover have "s = take 4 s @ r" using r by simp
    ultimately show ?thesis by blast
  qed
qed

lemma iso_date_no_T:
  assumes "iso_date s = Some x"
  shows "CHR ''T'' \<notin> set s"
proof -
  obtain y r md where y: "iso_year s = Some (y, r)" and m: "month_and_day r = Some md"
    using assms by (auto simp add: iso_date_def split: option.splits)
  obtain p where p: "s = p @ r" "CHR ''T'' \<notin> set p" using iso_year_no_T [OF y] by blast
  show ?thesis using p month_and_day_no_T [OF m] by auto
qed

lemma split_at_T:
  assumes "CHR ''T'' \<notin> set a"
  shows "takeWhile (\<lambda>c. c \<noteq> CHR ''T'') (a @ CHR ''T'' # r) = a"
    and "dropWhile (\<lambda>c. c \<noteq> CHR ''T'') (a @ CHR ''T'' # r) = CHR ''T'' # r"
proof -
  have n: "\<And>x. x \<in> set a \<Longrightarrow> x \<noteq> CHR ''T''" using assms by auto
  show "takeWhile (\<lambda>c. c \<noteq> CHR ''T'') (a @ CHR ''T'' # r) = a"
    using n by (simp add: takeWhile_append2)
  show "dropWhile (\<lambda>c. c \<noteq> CHR ''T'') (a @ CHR ''T'' # r) = CHR ''T'' # r"
    using n by (simp add: dropWhile_append2)
qed

text \<open>
  The date made of a date string and a time string: outside the format it is what the
  engine makes of the whole string, inside the format it is the instant of the fields.
\<close>

lemma newDate_outside:
  assumes "CHR ''T'' \<notin> set a" "iso_date a = None \<or> iso_time r = None"
  shows "newDate tza legacy (a @ CHR ''T'' # r) = legacy (a @ CHR ''T'' # r)"
  using assms(2) split_at_T [OF assms(1), of r]
  by (auto simp add: newDate_def Let_def split: option.splits)

lemma newDate_local:
  assumes "iso_date a = Some (y, m, d)" "iso_time r = Some ((h, mi, sec, ms), LocalTime)"
  shows "newDate tza legacy (a @ CHR ''T'' # r)
     = TimeClip (UTC tza (MakeDate (MakeDay y m d) (MakeTime h mi sec ms)))"
  using assms split_at_T [OF iso_date_no_T [OF assms(1)], of r]
  by (simp add: newDate_def Let_def)



lemma clock_time_iso:
  assumes "clock_time s = Some (h, mi)"
  shows "iso_time (s @ '':00'') = Some ((h, mi, 0, 0), LocalTime) \<and> h \<le> 23 \<and> mi \<le> 59"
  using assms
  by (cases s rule: clock_time.cases)
     (auto simp add: digits_n_def is_digit_def digits_val_def digit_val_def
        split: if_splits option.splits)

subsection \<open>Days and years\<close>

lemma div_step:
  fixes x c :: int
  assumes c: "1 < c"
  shows "(x + 1) div c = x div c + (if (x + 1) mod c = 0 then 1 else 0)"
proof -
  define r where "r = x mod c"
  have r: "0 \<le> r" "r < c" using c by (simp_all add: r_def)
  have d: "(x + 1) div c = x div c + (r + 1) div c"
    using div_add1_eq [of x 1 c] c by (simp add: r_def)
  have m: "(x + 1) mod c = (r + 1) mod c" by (simp add: r_def mod_add_left_eq)
  show ?thesis
  proof (cases "r + 1 = c")
    case True
    then show ?thesis using d m c by simp
  next
    case False
    then have "r + 1 < c" using r by simp
    then show ?thesis using d m r by simp
  qed
qed

lemma mod_shift: "(y - c * k) mod c = y mod c" for y c k :: int
  using mod_mult_self2 [of y c "- k"] by simp

lemma div4_step: "(y - 1968) div 4 = (y - 1969) div 4 + (if y mod 4 = 0 then 1 else 0)" for y :: int
  using div_step [of 4 "y - 1969"] mod_shift [of y 4 492] by simp

lemma div100_step: "(y - 1900) div 100 = (y - 1901) div 100 + (if y mod 100 = 0 then 1 else 0)" for y :: int
  using div_step [of 100 "y - 1901"] mod_shift [of y 100 19] by simp

lemma div400_step: "(y - 1600) div 400 = (y - 1601) div 400 + (if y mod 400 = 0 then 1 else 0)" for y :: int
  using div_step [of 400 "y - 1601"] mod_shift [of y 400 4] by simp

lemma mod_400_100: "y mod 400 = 0 \<Longrightarrow> y mod 100 = 0" for y :: int
  using mod_mod_cancel [of 100 400 y] by simp

lemma mod_100_4: "y mod 100 = 0 \<Longrightarrow> y mod 4 = 0" for y :: int
  using mod_mod_cancel [of 4 100 y] by simp

lemma DayFromYear_Suc:
  "DayFromYear (y + 1) = DayFromYear y + 365 + (if InLeapYear y then 1 else 0)"
proof -
  define A B C where "A = (y - 1969) div 4" and "B = (y - 1901) div 100"
    and "C = (y - 1601) div 400"
  have e: "y + 1 - 1969 = y - 1968" "y + 1 - 1901 = y - 1900" "y + 1 - 1601 = y - 1600"
    by simp_all
  have L: "DayFromYear (y + 1)
      = 365 * (y + 1 - 1970) + (A + (if y mod 4 = 0 then 1 else 0))
        - (B + (if y mod 100 = 0 then 1 else 0)) + (C + (if y mod 400 = 0 then 1 else 0))"
    unfolding DayFromYear_def e div4_step div100_step div400_step A_def B_def C_def ..
  have R: "DayFromYear y = 365 * (y - 1970) + A - B + C"
    unfolding DayFromYear_def A_def B_def C_def ..
  show ?thesis
    using mod_400_100 [of y] mod_100_4 [of y]
    by (cases "y mod 400 = 0"; cases "y mod 100 = 0"; cases "y mod 4 = 0")
       (simp_all add: L R InLeapYear_def)
qed

lemma DayFromYear_mono_nat: "DayFromYear y \<le> DayFromYear (y + int n)"
proof (induction n)
  case 0
  then show ?case by simp
next
  case (Suc n)
  have e: "y + int (Suc n) = y + int n + 1" by simp
  have "DayFromYear (y + int n) \<le> DayFromYear (y + int n + 1)"
    unfolding DayFromYear_Suc by simp
  then show ?case unfolding e using Suc by (rule order_trans [rotated])
qed

lemma DayFromYear_mono: "a \<le> b \<Longrightarrow> DayFromYear a \<le> DayFromYear b"
  using DayFromYear_mono_nat [of a "nat (b - a)"] by simp

lemma DayFromYear_0: "DayFromYear 0 = - 719528"
  by (simp add: DayFromYear_def)

lemma DayFromYear_9999: "DayFromYear 9999 = 2932532"
  by (simp add: DayFromYear_def)

lemma DayFromYear_bounds:
  "0 \<le> y \<Longrightarrow> y \<le> 9999 \<Longrightarrow> - 719528 \<le> DayFromYear y \<and> DayFromYear y \<le> 2932532"
  using DayFromYear_mono [of 0 y] DayFromYear_mono [of y 9999]
  by (simp add: DayFromYear_0 DayFromYear_9999)

lemma month_enum: "1 \<le> m \<Longrightarrow> m \<le> 12 \<Longrightarrow>
  m = 1 \<or> m = 2 \<or> m = 3 \<or> m = 4 \<or> m = 5 \<or> m = 6 \<or> m = 7 \<or> m = 8 \<or> m = 9
  \<or> m = 10 \<or> m = 11 \<or> m = (12::nat)"
  by arith

lemma day_of_year_bounds:
  assumes "1 \<le> m" "m \<le> 12" "1 \<le> d" "d \<le> days_in_month y m"
  shows "0 \<le> month_start y m + int d - 1
     \<and> month_start y m + int d - 1 \<le> 364 + (if InLeapYear y then 1 else 0)"
  using month_enum [OF assms(1,2)] assms(3,4)
  by (elim disjE) (auto simp add: month_start_def days_in_month_def split: if_splits)


lemma digit_val_le: "is_digit c \<Longrightarrow> digit_val c \<le> 9"
  unfolding is_digit_def digit_val_def by linarith

lemma foldl_digits_bound:
  "list_all is_digit ds \<Longrightarrow>
     foldl (\<lambda>n c. 10 * n + digit_val c) a ds < (a + 1) * 10 ^ length ds"
proof (induction ds arbitrary: a)
  case Nil
  then show ?case by simp
next
  case (Cons c ds)
  then have c: "digit_val c \<le> 9" and ds: "list_all is_digit ds" by (simp_all add: digit_val_le)
  have "foldl (\<lambda>n c. 10 * n + digit_val c) (10 * a + digit_val c) ds
      < (10 * a + digit_val c + 1) * 10 ^ length ds"
    using Cons.IH [OF ds] .
  also have "\<dots> \<le> (10 * a + 10) * 10 ^ length ds"
    using c by (intro mult_right_mono) simp_all
  also have "\<dots> = (a + 1) * 10 ^ length (c # ds)" by (simp add: algebra_simps)
  finally show ?case by simp
qed

lemma digits_val_bound: "list_all is_digit ds \<Longrightarrow> digits_val ds < 10 ^ length ds"
  using foldl_digits_bound [of ds 0] by (simp add: digits_val_def)

lemma iso_year_digits:
  assumes "list_all is_digit (take 4 s)" "4 \<le> length s"
  shows "iso_year s = Some (int (digits_val (take 4 s)), drop 4 s)"
proof (cases s)
  case Nil
  then show ?thesis using assms by simp
next
  case (Cons c r)
  then have "is_digit c" using assms(1) by simp
  then have "c \<noteq> CHR ''+''" "c \<noteq> CHR ''-''" by (auto simp add: is_digit_def)
  moreover have "digits_n 4 (take 4 s) = Some (digits_val (take 4 s))"
    using assms by (simp add: digits_n_def)
  ultimately show ?thesis using Cons by (simp add: iso_year_def)
qed

lemma calendar_dateD:
  assumes "calendar_date s = Some (y, m, d)"
  shows "iso_date s = Some (int y, m, d) \<and> y \<le> 9999 \<and> 1 \<le> m \<and> m \<le> 12 \<and> 1 \<le> d
     \<and> d \<le> days_in_month (int y) m"
proof -
  have l: "length s = 10" and dg: "list_all is_digit (take 4 s)"
    using assms by (auto simp add: calendar_date_def split: if_splits)
  obtain y0 where i: "iso_date s = Some (y0, m, d)" and dm: "d \<le> days_in_month y0 m"
    and y: "y = nat y0"
    using assms l dg by (auto simp add: calendar_date_def split: option.splits if_splits)
  have "iso_year s = Some (int (digits_val (take 4 s)), drop 4 s)"
    using dg l by (intro iso_year_digits) simp_all
  then have y0: "y0 = int (digits_val (take 4 s))"
    and r: "1 \<le> m \<and> m \<le> 12 \<and> 1 \<le> d"
    using i by (auto simp add: iso_date_def split: option.splits if_splits)
  have "digits_val (take 4 s) < 10 ^ length (take 4 s)" using dg by (rule digits_val_bound)
  then have "digits_val (take 4 s) < 10 ^ 4" using l by simp
  then have "y \<le> 9999" using y y0 by simp
  moreover have "int y = y0" using y y0 by simp
  ultimately show ?thesis using i dm r by simp
qed


lemma MakeDay_range:
  assumes "y \<le> 9999" "1 \<le> m" "m \<le> 12" "1 \<le> d" "d \<le> days_in_month (int y) m"
  shows "- 719528 \<le> MakeDay (int y) m d \<and> MakeDay (int y) m d \<le> 2932898"
proof -
  have "0 \<le> int y" "int y \<le> 9999" using assms(1) by simp_all
  then have y: "- 719528 \<le> DayFromYear (int y) \<and> DayFromYear (int y) \<le> 2932532"
    by (rule DayFromYear_bounds)
  have d: "0 \<le> month_start (int y) m + int d - 1
     \<and> month_start (int y) m + int d - 1 \<le> 364 + (if InLeapYear (int y) then 1 else 0)"
    using assms(2-5) by (rule day_of_year_bounds)
  show ?thesis using y d unfolding MakeDay_def by (auto split: if_splits)
qed



lemma TimeClip_day:
  assumes "- 719528 \<le> day" "day \<le> 2932898" "0 \<le> t" "t \<le> 86400000" "\<bar>off\<bar> \<le> 86400000"
  shows "TimeClip (MakeDate day t - off) = Some (MakeDate day t - off)"
  using assms by (simp add: TimeClip_def MakeDate_def)


section \<open>Saving\<close>

text \<open>
  C3 (as amended). Saving shows the invalid-value message exactly when the typed value
  does not parse or parses to a value that is at most 0. With a valid value, it shows
  the invalid-date message when the date is not a date of the format or the time, with
  the seconds \<open>:00\<close> appended, is not a time of the format, in an engine that makes
  no date of such a string; it never shows it for a calendar date with a time of day,
  and then, when the store accepts the instant and the write, the save succeeds and
  the record holds that local instant. Whenever the save does not succeed the store is
  left as it was, while a successful save adds the one complete record.
\<close>

theorem handleSave_validation:
  "(saveMessage (fst (handleSave tza legacy appId userId fault new_id (fm, db)))
       = Some InvalidValue
      \<longleftrightarrow> parseFloat (f_glicemia fm) = NaN \<or> jle (parseFloat (f_glicemia fm)) (Fin 0))
   \<and> (\<not> (parseFloat (f_glicemia fm) = NaN \<or> jle (parseFloat (f_glicemia fm)) (Fin 0))
       \<and> CHR ''T'' \<notin> set (f_data fm)
       \<and> (iso_date (f_data fm) = None \<or> iso_time (f_hora fm @ '':00'') = None)
       \<and> legacy (f_data fm @ ''T'' @ f_hora fm @ '':00'') = None
      \<longrightarrow> saveMessage (fst (handleSave tza legacy appId userId fault new_id (fm, db)))
            = Some InvalidDateTime)
   \<and> (\<forall>y m d h mi.
        \<not> (parseFloat (f_glicemia fm) = NaN \<or> jle (parseFloat (f_glicemia fm)) (Fin 0))
        \<and> calendar_date (f_data fm) = Some (y, m, d) \<and> clock_time (f_hora fm) = Some (h, mi)
        \<and> (\<forall>t. \<bar>tza t\<bar> \<le> 86400000)
      \<longrightarrow> saveMessage (fst (handleSave tza legacy appId userId fault new_id (fm, db)))
            \<noteq> Some InvalidDateTime
          \<and> (fault = None
              \<and> in_timestamp_range (UTC tza (MakeDate (MakeDay (int y) m d) (MakeTime h mi 0 0)))
             \<longrightarrow> saveMessage (fst (handleSave tza legacy appId userId fault new_id (fm, db)))
                   = Some (SaveSuccess (f_glicemia fm))
                 \<and> snd (handleSave tza legacy appId userId fault new_id (fm, db))
                     = db (GLICEMIA_COLLECTION appId userId :=
                            db (GLICEMIA_COLLECTION appId userId)
                            @ [\<lparr>doc_id = new_id, glicemia = f_glicemia fm,
                                data = join_with ''/'' (rev (split_on CHR ''-'' (f_data fm))),
                                hora = f_hora fm,
                                timestamp = UTC tza (MakeDate (MakeDay (int y) m d)
                                                        (MakeTime h mi 0 0))\<rparr>])))
   \<and> ((\<forall>g. saveMessage (fst (handleSave tza legacy appId userId fault new_id (fm, db)))
              \<noteq> Some (SaveSuccess g))
      \<longrightarrow> snd (handleSave tza legacy appId userId fault new_id (fm, db)) = db)
   \<and> ((\<exists>g. saveMessage (fst (handleSave tza legacy appId userId fault new_id (fm, db)))
              = Some (SaveSuccess g))
      \<longrightarrow> (\<exists>t. snd (handleSave tza legacy appId userId fault new_id (fm, db))
                 = db (GLICEMIA_COLLECTION appId userId :=
                        db (GLICEMIA_COLLECTION appId userId)
                        @ [\<lparr>doc_id = new_id, glicemia = f_glicemia fm,
                            data = join_with ''/'' (rev (split_on CHR ''-'' (f_data fm))),
                            hora = f_hora fm, timestamp = t\<rparr>])))"
proof (intro conjI allI impI)
  show "saveMessage (fst (handleSave tza legacy appId userId fault new_id (fm, db)))
       = Some InvalidValue
      \<longleftrightarrow> parseFloat (f_glicemia fm) = NaN \<or> jle (parseFloat (f_glicemia fm)) (Fin 0)"
    by (auto simp add: handleSave_def Let_def addDoc_def isNaN_def Timestamp_fromMillis_def
        split: option.splits sum.splits if_splits)
next
  assume h: "\<not> (parseFloat (f_glicemia fm) = NaN \<or> jle (parseFloat (f_glicemia fm)) (Fin 0))
       \<and> CHR ''T'' \<notin> set (f_data fm)
       \<and> (iso_date (f_data fm) = None \<or> iso_time (f_hora fm @ '':00'') = None)
       \<and> legacy (f_data fm @ ''T'' @ f_hora fm @ '':00'') = None"
  then have "newDate tza legacy (f_data fm @ CHR ''T'' # (f_hora fm @ '':00''))
      = legacy (f_data fm @ CHR ''T'' # (f_hora fm @ '':00''))"
    by (intro newDate_outside) simp_all
  then have "newDate tza legacy (f_data fm @ ''T'' @ f_hora fm @ '':00'') = None"
    using h by simp
  then show "saveMessage (fst (handleSave tza legacy appId userId fault new_id (fm, db)))
            = Some InvalidDateTime"
    using h by (simp add: handleSave_def Let_def isNaN_def)
next
  fix y m d h mi
  assume a: "\<not> (parseFloat (f_glicemia fm) = NaN \<or> jle (parseFloat (f_glicemia fm)) (Fin 0))
        \<and> calendar_date (f_data fm) = Some (y, m, d) \<and> clock_time (f_hora fm) = Some (h, mi)
        \<and> (\<forall>t. \<bar>tza t\<bar> \<le> 86400000)"
  define t where "t = MakeDate (MakeDay (int y) m d) (MakeTime h mi 0 0)"
  have fa: "iso_date (f_data fm) = Some (int y, m, d) \<and> y \<le> 9999 \<and> 1 \<le> m \<and> m \<le> 12 \<and> 1 \<le> d
     \<and> d \<le> days_in_month (int y) m"
    using a by (intro calendar_dateD) simp
  have ft: "iso_time (f_hora fm @ '':00'') = Some ((h, mi, 0, 0), LocalTime) \<and> h \<le> 23 \<and> mi \<le> 59"
    using a by (intro clock_time_iso) simp
  have r: "- 719528 \<le> MakeDay (int y) m d \<and> MakeDay (int y) m d \<le> 2932898"
    using fa by (intro MakeDay_range) simp_all
  have z: "\<bar>tza t\<bar> \<le> 86400000" using a by simp
  have "TimeClip (MakeDate (MakeDay (int y) m d) (MakeTime h mi 0 0) - tza t)
      = Some (MakeDate (MakeDay (int y) m d) (MakeTime h mi 0 0) - tza t)"
    using r ft z by (intro TimeClip_day) (simp_all add: MakeTime_def)
  then have c: "TimeClip (UTC tza t) = Some (UTC tza t)" by (simp add: UTC_def t_def)
  have "newDate tza legacy (f_data fm @ CHR ''T'' # (f_hora fm @ '':00''))
      = TimeClip (UTC tza t)"
    unfolding t_def using fa ft by (intro newDate_local) simp_all
  then have n: "newDate tza legacy (f_data fm @ ''T'' @ f_hora fm @ '':00'') = Some (UTC tza t)"
    using c by simp
  show "saveMessage (fst (handleSave tza legacy appId userId fault new_id (fm, db)))
            \<noteq> Some InvalidDateTime"
    using a n by (simp add: handleSave_def Let_def isNaN_def addDoc_def Timestamp_fromMillis_def
        split: option.splits sum.splits)
  assume s: "fault = None
      \<and> in_timestamp_range (UTC tza (MakeDate (MakeDay (int y) m d) (MakeTime h mi 0 0)))"
  show "saveMessage (fst (handleSave tza legacy appId userId fault new_id (fm, db)))
          = Some (SaveSuccess (f_glicemia fm))"
    using a n s by (simp add: handleSave_def Let_def isNaN_def addDoc_def
        Timestamp_fromMillis_def t_def)
  show "snd (handleSave tza legacy appId userId fault new_id (fm, db))
          = db (GLICEMIA_COLLECTION appId userId :=
                 db (GLICEMIA_COLLECTION appId userId)
                 @ [\<lparr>doc_id = new_id, glicemia = f_glicemia fm,
                     data = join_with ''/'' (rev (split_on CHR ''-'' (f_data fm))),
                     hora = f_hora fm,
                     timestamp = UTC tza (MakeDate (MakeDay (int y) m d)
                                             (MakeTime h mi 0 0))\<rparr>])"
    using a n s by (simp add: handleSave_def Let_def isNaN_def addDoc_def
        Timestamp_fromMillis_def t_def)
next
  assume "\<forall>g. saveMessage (fst (handleSave tza legacy appId userId fault new_id (fm, db)))
              \<noteq> Some (SaveSuccess g)"
  then show "snd (handleSave tza legacy appId userId fault new_id (fm, db)) = db"
    by (auto simp add: handleSave_def Let_def addDoc_def isNaN_def Timestamp_fromMillis_def
        split: option.splits sum.splits if_splits)
next
  assume "\<exists>g. saveMessage (fst (handleSave tza legacy appId userId fault new_id (fm, db)))
              = Some (SaveSuccess g)"
  then show "\<exists>t. snd (handleSave tza legacy appId userId fault new_id (fm, db))
                 = db (GLICEMIA_COLLECTION appId userId :=
                        db (GLICEMIA_COLLECTION appId userId)
                        @ [\<lparr>doc_id = new_id, glicemia = f_glicemia fm,
                            data = join_with ''/'' (rev (split_on CHR ''-'' (f_data fm))),
                            hora = f_hora fm, timestamp = t\<rparr>])"
    by (auto simp add: handleSave_def Let_def addDoc_def isNaN_def Timestamp_fromMillis_def
        split: option.splits sum.splits if_splits)
qed

lemma parseFloat_120: "parseFloat ''120'' = Fin 120"
  by (simp add: parse_defs fl_numeral)

lemma calendar_date_ex1: "calendar_date ''2024-03-05'' = Some (2024, 3, 5)"
  by (simp add: calendar_date_def days_in_month_def date_defs)

lemma calendar_date_ex2: "calendar_date ''2024-03-06'' = Some (2024, 3, 6)"
  by (simp add: calendar_date_def days_in_month_def date_defs)

lemma clock_time_ex: "clock_time ''10:00'' = Some (10, 0)"
  by (simp add: digits_n_def is_digit_def digits_val_def digit_val_def)

text \<open>
  A reading of 120 at 10:00 of the 5th of March 2024 in Sao Paulo is saved with
  the instant 13:00 UTC; the same reading with the date left empty is refused.
\<close>

theorem handleSave_validation_witness:
  "parseFloat ''120'' = Fin 120
   \<and> calendar_date ''2024-03-05'' = Some (2024, 3, 5) \<and> clock_time ''10:00'' = Some (10, 0)
   \<and> saveMessage (fst (handleSave sao_paulo no_heuristics ''app'' ''u1'' None ''id1''
        (\<lparr>f_glicemia = ''120'', f_data = ''2024-03-05'', f_hora = ''10:00'',
          loadingSave = True, saveMessage = None\<rparr>, empty_store)))
       = Some (SaveSuccess ''120'')
   \<and> snd (handleSave sao_paulo no_heuristics ''app'' ''u1'' None ''id1''
        (\<lparr>f_glicemia = ''120'', f_data = ''2024-03-05'', f_hora = ''10:00'',
          loadingSave = True, saveMessage = None\<rparr>, empty_store))
       ''artifacts/app/users/u1/glicemia_records''
       = [\<lparr>doc_id = ''id1'', glicemia = ''120'', data = ''05/03/2024'', hora = ''10:00'',
           timestamp = 1709643600000\<rparr>]
   \<and> iso_date [] = None
   \<and> saveMessage (fst (handleSave sao_paulo no_heuristics ''app'' ''u1'' None ''id1''
        (\<lparr>f_glicemia = ''120'', f_data = [], f_hora = ''10:00'',
          loadingSave = True, saveMessage = None\<rparr>, empty_store)))
       = Some InvalidDateTime
   \<and> snd (handleSave sao_paulo no_heuristics ''app'' ''u1'' None ''id1''
        (\<lparr>f_glicemia = ''120'', f_data = [], f_hora = ''10:00'',
          loadingSave = True, saveMessage = None\<rparr>, empty_store)) = empty_store"
proof -
  have v: "\<not> (parseFloat ''120'' = NaN \<or> jle (parseFloat ''120'') (Fin 0))"
    by (simp add: parseFloat_120 jle_def)
  have z: "\<forall>t. \<bar>sao_paulo t\<bar> \<le> 86400000" by (simp add: sao_paulo_def)
  have i: "UTC sao_paulo (MakeDate (MakeDay 2024 3 5) (MakeTime 10 0 0 0)) = 1709643600000"
    by (simp add: UTC_def sao_paulo_def MakeDate_def MakeDay_def MakeTime_def DayFromYear_def
        month_start_def InLeapYear_def)
  have r: "in_timestamp_range 1709643600000" by (simp add: in_timestamp_range_def)
  have e: "iso_date [] = None" by (simp add: iso_date_def iso_year_def)
  note t1 = handleSave_validation [of sao_paulo no_heuristics "''app''" "''u1''" None "''id1''"
      "\<lparr>f_glicemia = ''120'', f_data = ''2024-03-05'', f_hora = ''10:00'',
        loadingSave = True, saveMessage = None\<rparr>" empty_store]
  note t2 = handleSave_validation [of sao_paulo no_heuristics "''app''" "''u1''" None "''id1''"
      "\<lparr>f_glicemia = ''120'', f_data = [], f_hora = ''10:00'',
        loadingSave = True, saveMessage = None\<rparr>" empty_store]
  have a: "saveMessage (fst (handleSave sao_paulo no_heuristics ''app'' ''u1'' None ''id1''
        (\<lparr>f_glicemia = ''120'', f_data = ''2024-03-05'', f_hora = ''10:00'',
          loadingSave = True, saveMessage = None\<rparr>, empty_store)))
       = Some (SaveSuccess ''120'')
     \<and> snd (handleSave sao_paulo no_heuristics ''app'' ''u1'' None ''id1''
        (\<lparr>f_glicemia = ''120'', f_data = ''2024-03-05'', f_hora = ''10:00'',
          loadingSave = True, saveMessage = None\<rparr>, empty_store))
       = empty_store (GLICEMIA_COLLECTION ''app'' ''u1'' :=
           empty_store (GLICEMIA_COLLECTION ''app'' ''u1'')
           @ [\<lparr>doc_id = ''id1'', glicemia = ''120'',
               data = join_with ''/'' (rev (split_on CHR ''-'' ''2024-03-05'')),
               hora = ''10:00'', timestamp = 1709643600000\<rparr>])"
    using t1 v z i r calendar_date_ex1 clock_time_ex by simp
  have b: "saveMessage (fst (handleSave sao_paulo no_heuristics ''app'' ''u1'' None ''id1''
        (\<lparr>f_glicemia = ''120'', f_data = [], f_hora = ''10:00'',
          loadingSave = True, saveMessage = None\<rparr>, empty_store)))
       = Some InvalidDateTime"
    using t2 v e by (simp add: no_heuristics_def)
  then have c: "snd (handleSave sao_paulo no_heuristics ''app'' ''u1'' None ''id1''
        (\<lparr>f_glicemia = ''120'', f_data = [], f_hora = ''10:00'',
          loadingSave = True, saveMessage = None\<rparr>, empty_store)) = empty_store"
    using t2 by simp
  show ?thesis
    using a b c e
    by (simp add: parseFloat_120 calendar_date_ex1 GLICEMIA_COLLECTION_def empty_store_def
        digits_n_def is_digit_def digits_val_def digit_val_def)
qed

lemma newDate_february_30:
  "newDate utc_zone no_heuristics ''2024-02-30T10:00:00'' = Some 1709287200000"
  by (simp add: date_defs utc_zone_def)

lemma newDate_march_1:
  "newDate utc_zone no_heuristics ''2024-03-01T10:00:00'' = Some 1709287200000"
  by (simp add: date_defs utc_zone_def)

text \<open>
  A time of day that is the hour alone makes, with the \<open>:00\<close> appended, the time
  \<open>HH:mm\<close> of the format: it is read as that hour.
\<close>

lemma newDate_hour_only:
  "newDate utc_zone no_heuristics (''2024-03-05'' @ ''T'' @ ''10'' @ '':00'') = Some 1709632800000"
  by (simp add: date_defs utc_zone_def)

text \<open>
  The claim C3 as it was written fails on the 30th of February 2024 at 10:00, which is
  no calendar date and so no valid instant. The date that \<open>handleSave\<close> makes of it
  is a valid one, the 1st of March: the check of the date passes, the save succeeds,
  and the record written has the day that was typed as its \<open>data\<close> and the instant
  of the 1st of March as its \<open>timestamp\<close>.
\<close>

theorem handleSave_counterexample:
  "calendar_date ''2024-02-30'' = None
   \<and> newDate utc_zone no_heuristics ''2024-02-30T10:00:00''
       = newDate utc_zone no_heuristics ''2024-03-01T10:00:00''
   \<and> saveMessage (fst (handleSave utc_zone no_heuristics ''app'' ''u1'' None ''id1''
        (\<lparr>f_glicemia = ''120'', f_data = ''2024-02-30'', f_hora = ''10:00'',
          loadingSave = True, saveMessage = None\<rparr>, empty_store)))
       = Some (SaveSuccess ''120'')
   \<and> snd (handleSave utc_zone no_heuristics ''app'' ''u1'' None ''id1''
        (\<lparr>f_glicemia = ''120'', f_data = ''2024-02-30'', f_hora = ''10:00'',
          loadingSave = True, saveMessage = None\<rparr>, empty_store))
       ''artifacts/app/users/u1/glicemia_records''
       = [\<lparr>doc_id = ''id1'', glicemia = ''120'', data = ''30/02/2024'', hora = ''10:00'',
           timestamp = 1709287200000\<rparr>]"
proof -
  have c: "calendar_date ''2024-02-30'' = None"
    by (simp add: calendar_date_def days_in_month_def date_defs)
  have h: "handleSave utc_zone no_heuristics ''app'' ''u1'' None ''id1''
        (\<lparr>f_glicemia = ''120'', f_data = ''2024-02-30'', f_hora = ''10:00'',
          loadingSave = True, saveMessage = None\<rparr>, empty_store)
      = (\<lparr>f_glicemia = [], f_data = ''2024-02-30'', f_hora = ''10:00'',
          loadingSave = False, saveMessage = Some (SaveSuccess ''120'')\<rparr>,
         empty_store (''artifacts/app/users/u1/glicemia_records'' :=
           [\<lparr>doc_id = ''id1'', glicemia = ''120'', data = ''30/02/2024'', hora = ''10:00'',
             timestamp = 1709287200000\<rparr>]))"
    by (simp add: handleSave_def parseFloat_120 isNaN_def jle_def newDate_february_30
        Timestamp_fromMillis_def in_timestamp_range_def addDoc_def GLICEMIA_COLLECTION_def
        empty_store_def)
  show ?thesis unfolding h by (simp add: c newDate_february_30 newDate_march_1)
qed

section \<open>The window and the records delivered\<close>













subsection \<open>The snapshot of the history\<close>



lemma length_order_by: "length (order_by dir rs) = length rs"
  by (cases dir) (simp_all add: order_by_def)



subsection \<open>A window with the start after the end\<close>



subsection \<open>The two theorems on the example store\<close>








end
